theory Spec2Isabelle
  imports Complex_Main "HOL-Library.Word"
begin

unbundle bit_operations_syntax

section \<open>JavaScript values carried by a JSON request body\<close>

text \<open>
  A JavaScript string is a sequence of 16-bit code units. \<open>js\<close> writes an ASCII
  literal of the source as such a sequence.
\<close>

type_synonym code_unit = "16 word"
type_synonym jsstring = "code_unit list"

definition js :: "string \<Rightarrow> jsstring" where
  "js s = map of_char s"

text \<open>
  A Number is an IEEE double: not-a-number, an infinity, the negative zero, or a
  finite value, kept as the rational it denotes (\<open>Fin 0\<close> is the positive zero).
\<close>

datatype jsnum = NaN | PosInf | NegInf | NegZero | Fin rat

text \<open>
  What \<open>JSON.parse\<close> produces (\<open>express.json()\<close> fills \<open>req.body\<close> with it), and
  \<open>undefined\<close> for a property the body does not have. An object is its list of own
  properties; none of them is callable.
\<close>

datatype jsval =
    JUndefined
  | JNull
  | JBool bool
  | JNum jsnum
  | JStr jsstring
  | JArr "jsval list"
  | JObj "(jsstring \<times> jsval) list"

section \<open>Regular expressions\<close>

text \<open>
  The two regular-expression literals of \<open>server.js\<close> are built from single characters,
  character classes, the dot, capture groups, greedy quantifiers and the two anchors.
  Neither carries a flag.
\<close>

datatype regex =
    Lit code_unit                          \<comment> \<open>one literal character\<close>
  | Class "(code_unit \<times> code_unit) list"    \<comment> \<open>\<open>[...]\<close>: a list of ranges, \<open>(c, c)\<close> for a single character\<close>
  | Dot                                    \<comment> \<open>\<open>.\<close>: any code unit but a line terminator\<close>
  | Bol                                    \<comment> \<open>\<open>^\<close>\<close>
  | Eol                                    \<comment> \<open>\<open>$\<close>\<close>
  | Seq regex regex
  | Group nat regex                        \<comment> \<open>capture group number \<open>n\<close>, counted from 0\<close>
  | Quant regex nat "nat option"           \<comment> \<open>greedy \<open>{lo,hi}\<close>; \<open>+\<close> is \<open>{1,}\<close>\<close>

definition is_line_terminator :: "code_unit \<Rightarrow> bool" where
  "is_line_terminator c = (c = 0x0A \<or> c = 0x0D \<or> c = 0x2028 \<or> c = 0x2029)"

definition in_class :: "(code_unit \<times> code_unit) list \<Rightarrow> code_unit \<Rightarrow> bool" where
  "in_class rs c = list_ex (\<lambda>(lo, hi). lo \<le> c \<and> c \<le> hi) rs"

text \<open>
  A matcher state is the index reached in the input and the captures so far. A matcher
  returns every state it can end in, the one the backtracking engine tries first at the
  head of the list.
\<close>

type_synonym mstate = "nat \<times> jsstring option list"

definition substring :: "jsstring \<Rightarrow> nat \<Rightarrow> nat \<Rightarrow> jsstring" where
  "substring s i j = take (j - i) (drop i s)"

text \<open>
  The greedy quantifier: one more iteration is tried before stopping. Once the minimum
  is reached an iteration that matches the empty string is refused (the RepeatMatcher
  of ECMAScript), so an unbounded quantifier runs at most once per remaining character
  beyond its minimum; that bound is the \<open>nat\<close> counted down here.
\<close>

fun iter :: "(mstate \<Rightarrow> mstate list) \<Rightarrow> nat \<Rightarrow> nat \<Rightarrow> mstate \<Rightarrow> mstate list" where
  "iter f lo 0 st = (if lo = 0 then [st] else [])"
| "iter f lo (Suc h) st =
     concat (map (iter f (lo - 1) h)
               (if lo = 0 then filter (\<lambda>st'. fst st' \<noteq> fst st) (f st) else f st))
     @ (if lo = 0 then [st] else [])"

primrec rxm :: "regex \<Rightarrow> jsstring \<Rightarrow> mstate \<Rightarrow> mstate list" where
  "rxm (Lit c) s st =
     (if fst st < length s \<and> s ! fst st = c then [(Suc (fst st), snd st)] else [])"
| "rxm (Class rs) s st =
     (if fst st < length s \<and> in_class rs (s ! fst st) then [(Suc (fst st), snd st)] else [])"
| "rxm Dot s st =
     (if fst st < length s \<and> \<not> is_line_terminator (s ! fst st)
      then [(Suc (fst st), snd st)] else [])"
| "rxm Bol s st = (if fst st = 0 then [st] else [])"
| "rxm Eol s st = (if fst st = length s then [st] else [])"
| "rxm (Seq a b) s st = concat (map (rxm b s) (rxm a s st))"
| "rxm (Group n r) s st =
     map (\<lambda>st'. (fst st', (snd st')[n := Some (substring s (fst st) (fst st'))]))
       (rxm r s st)"
| "rxm (Quant r lo hi) s st =
     iter (rxm r s) lo
       (case hi of Some h \<Rightarrow> h | None \<Rightarrow> lo + (length s - fst st)) st"

text \<open>
  \<open>RegExp.prototype.exec\<close> on a regular expression without flags: the first start index,
  from 0 up to the length of the input, at which the pattern matches; the result is the
  matched text followed by the captures of its \<open>ngroups\<close> groups (\<open>None\<close> is the
  \<open>undefined\<close> of a group that took no part).
\<close>

definition exec_at :: "regex \<Rightarrow> nat \<Rightarrow> jsstring \<Rightarrow> nat \<Rightarrow> jsstring option list option" where
  "exec_at r ngroups s i =
     (case rxm r s (i, replicate ngroups None) of
        [] \<Rightarrow> None
      | st # _ \<Rightarrow> Some (Some (substring s i (fst st)) # snd st))"

definition rx_exec :: "regex \<Rightarrow> nat \<Rightarrow> jsstring \<Rightarrow> jsstring option list option" where
  "rx_exec r ngroups s =
     (case List.map_filter (exec_at r ngroups s) [0..<Suc (length s)] of
        [] \<Rightarrow> None
      | m # _ \<Rightarrow> Some m)"

definition rx_test :: "regex \<Rightarrow> nat \<Rightarrow> jsstring \<Rightarrow> bool" where
  "rx_test r ngroups s = (rx_exec r ngroups s \<noteq> None)"

definition lits :: "string \<Rightarrow> regex \<Rightarrow> regex" where
  "lits cs r = foldr (\<lambda>c. Seq (Lit (of_char c))) cs r"

section \<open>sanitizeCollectionName\<close>

text \<open>
  \<open>String.prototype.trim\<close> removes the WhiteSpace and LineTerminator code points from
  both ends.
\<close>

definition is_js_whitespace :: "code_unit \<Rightarrow> bool" where
  "is_js_whitespace c =
     (c = 0x09 \<or> c = 0x0A \<or> c = 0x0B \<or> c = 0x0C \<or> c = 0x0D \<or> c = 0x20 \<or> c = 0xA0
      \<or> c = 0x1680 \<or> (0x2000 \<le> c \<and> c \<le> 0x200A) \<or> c = 0x2028 \<or> c = 0x2029
      \<or> c = 0x202F \<or> c = 0x205F \<or> c = 0x3000 \<or> c = 0xFEFF)"

definition trim :: "jsstring \<Rightarrow> jsstring" where
  "trim s = rev (dropWhile is_js_whitespace (rev (dropWhile is_js_whitespace s)))"

text \<open>\<open>[A-Za-z0-9_-]\<close>\<close>

definition field_id_class :: "(code_unit \<times> code_unit) list" where
  "field_id_class =
     [(of_char CHR ''A'', of_char CHR ''Z''), (of_char CHR ''a'', of_char CHR ''z''),
      (of_char CHR ''0'', of_char CHR ''9''), (of_char CHR ''_'', of_char CHR ''_''),
      (of_char CHR ''-'', of_char CHR ''-'')]"

text \<open>\<open>/^[A-Za-z0-9_-]{1,100}$/\<close>\<close>

definition field_id_regex :: regex where
  "field_id_regex = Seq Bol (Seq (Quant (Class field_id_class) 1 (Some 100)) Eol)"

text \<open>
  \<^verbatim>\<open>
  function sanitizeCollectionName(name) {
    if (typeof name !== "string") return null;
    const trimmed = name.trim();
    if (!/^[A-Za-z0-9_-]{1,100}$/.test(trimmed)) return null;
    return trimmed;
  }
  \<close>
\<close>

definition sanitizeCollectionName :: "jsval \<Rightarrow> jsstring option" where
  "sanitizeCollectionName name =
     (case name of
        JStr s \<Rightarrow>
          (let trimmed = trim s
           in if \<not> rx_test field_id_regex 0 trimmed then None else Some trimmed)
      | _ \<Rightarrow> None)"

text \<open>
  The wording of the specification: one to 100 characters drawn from ASCII letters,
  digits, underscore, hyphen.
\<close>

definition allowed_char :: "code_unit \<Rightarrow> bool" where
  "allowed_char c =
     ((0x41 \<le> c \<and> c \<le> 0x5A) \<or> (0x61 \<le> c \<and> c \<le> 0x7A) \<or> (0x30 \<le> c \<and> c \<le> 0x39)
      \<or> c = 0x5F \<or> c = 0x2D)"

definition well_formed_name :: "jsstring \<Rightarrow> bool" where
  "well_formed_name t = (1 \<le> length t \<and> length t \<le> 100 \<and> list_all allowed_char t)"

section \<open>Number(value)\<close>

text \<open>
  Rounding a non-negative rational to the nearest double, ties to even: below
  \<open>2\<^sup>-\<^sup>1\<^sup>0\<^sup>2\<^sup>2\<close> the doubles are \<open>2\<^sup>-\<^sup>1\<^sup>0\<^sup>7\<^sup>4\<close> apart, from \<open>2\<^sup>e\<close> to \<open>2\<^sup>e\<^sup>+\<^sup>1\<close> they are
  \<open>2\<^sup>e\<^sup>-\<^sup>5\<^sup>2\<close> apart, and what rounds to \<open>2\<^sup>1\<^sup>0\<^sup>2\<^sup>4\<close> or more is an infinity. \<open>ilog2 q\<close> is
  the \<open>e\<close> with \<open>2\<^sup>e \<le> q < 2\<^sup>e\<^sup>+\<^sup>1\<close>, and \<open>neg\<close> is the sign.
\<close>

function bit_length :: "int \<Rightarrow> int" where
  "bit_length a = (if a \<le> 0 then 0 else 1 + bit_length (a div 2))"
  by pat_completeness auto
termination
  by (relation "measure nat") auto

declare bit_length.simps [simp del]

definition ilog2 :: "rat \<Rightarrow> int" where
  "ilog2 q =
     (let (a, b) = quotient_of q;
          e = bit_length a - bit_length b
      in if 2 powi e \<le> q then e else e - 1)"

definition round_half_even :: "rat \<Rightarrow> int" where
  "round_half_even x =
     (let f = \<lfloor>x\<rfloor>; d = x - of_int f
      in if d < 1 / 2 then f else if 1 / 2 < d then f + 1 else if even f then f else f + 1)"

definition round_double :: "bool \<Rightarrow> rat \<Rightarrow> jsnum" where
  "round_double neg mag =
     (if mag = 0 then (if neg then NegZero else Fin 0)
      else
        let e = max (ilog2 mag) (- 1022);
            ulp = 2 powi (e - 52);
            v = of_int (round_half_even (mag / ulp)) * ulp
        in if v = 0 then (if neg then NegZero else Fin 0)
           else if 1024 \<le> ilog2 v then (if neg then NegInf else PosInf)
           else Fin (if neg then - v else v))"

text \<open>
  StringToNumber: the text between the white space must be a StringNumericLiteral:
  nothing (the value is 0), \<open>0x\<close>, \<open>0o\<close> or \<open>0b\<close> and digits of that base, or an optional
  sign and \<open>Infinity\<close>, digits with an optional fraction and exponent, or a fraction
  alone. Any other text is NaN.
\<close>

definition digit_value :: "code_unit \<Rightarrow> int option" where
  "digit_value c =
     (if 0x30 \<le> c \<and> c \<le> 0x39 then Some (uint c - 0x30)
      else if 0x61 \<le> c \<and> c \<le> 0x66 then Some (uint c - 0x61 + 10)
      else if 0x41 \<le> c \<and> c \<le> 0x46 then Some (uint c - 0x41 + 10)
      else None)"

definition is_digit :: "int \<Rightarrow> code_unit \<Rightarrow> bool" where
  "is_digit base c = (case digit_value c of Some d \<Rightarrow> d < base | None \<Rightarrow> False)"

definition digits_value :: "int \<Rightarrow> jsstring \<Rightarrow> int" where
  "digits_value base ds =
     foldl (\<lambda>a c. case digit_value c of Some d \<Rightarrow> a * base + d | None \<Rightarrow> a) 0 ds"

definition numeral_of :: "int \<Rightarrow> jsstring \<Rightarrow> int option" where
  "numeral_of base ds =
     (if ds \<noteq> [] \<and> list_all (is_digit base) ds then Some (digits_value base ds) else None)"

definition non_decimal_literal :: "jsstring \<Rightarrow> int option" where
  "non_decimal_literal t =
     (case t of
        z # x # ds \<Rightarrow>
          if z \<noteq> of_char CHR ''0'' then None
          else if x = of_char CHR ''x'' \<or> x = of_char CHR ''X'' then numeral_of 16 ds
          else if x = of_char CHR ''o'' \<or> x = of_char CHR ''O'' then numeral_of 8 ds
          else if x = of_char CHR ''b'' \<or> x = of_char CHR ''B'' then numeral_of 2 ds
          else None
      | _ \<Rightarrow> None)"

definition exponent_part :: "jsstring \<Rightarrow> int option" where
  "exponent_part r =
     (case r of
        [] \<Rightarrow> Some 0
      | c # r' \<Rightarrow>
          if c = of_char CHR ''e'' \<or> c = of_char CHR ''E'' then
            (case r' of
               [] \<Rightarrow> None
             | d # r'' \<Rightarrow>
                 if d = of_char CHR ''+'' then numeral_of 10 r''
                 else if d = of_char CHR ''-'' then map_option uminus (numeral_of 10 r'')
                 else numeral_of 10 r')
          else None)"

datatype magnitude = Infinite | Finite rat

definition unsigned_decimal_literal :: "jsstring \<Rightarrow> magnitude option" where
  "unsigned_decimal_literal u =
     (if u = js ''Infinity'' then Some Infinite
      else
        let ip = takeWhile (is_digit 10) u; r1 = dropWhile (is_digit 10) u
        in case r1 of
             c # r2 \<Rightarrow>
               if c = of_char CHR ''.'' then
                 (let fp = takeWhile (is_digit 10) r2; r3 = dropWhile (is_digit 10) r2
                  in if ip = [] \<and> fp = [] then None
                     else map_option
                            (\<lambda>e. Finite (of_int (digits_value 10 (ip @ fp))
                                          * 10 powi (e - int (length fp))))
                            (exponent_part r3))
               else if ip = [] then None
               else map_option (\<lambda>e. Finite (of_int (digits_value 10 ip) * 10 powi e))
                      (exponent_part r1)
           | [] \<Rightarrow> if ip = [] then None else Some (Finite (of_int (digits_value 10 ip))))"

definition StringToNumber :: "jsstring \<Rightarrow> jsnum" where
  "StringToNumber s =
     (let t = trim s
      in if t = [] then Fin 0
         else case non_decimal_literal t of
                Some n \<Rightarrow> round_double False (of_int n)
              | None \<Rightarrow>
                  (let neg = (hd t = of_char CHR ''-'');
                       u = (if hd t = of_char CHR ''+'' \<or> hd t = of_char CHR ''-'' then tl t else t)
                   in case unsigned_decimal_literal u of
                        None \<Rightarrow> NaN
                      | Some Infinite \<Rightarrow> (if neg then NegInf else PosInf)
                      | Some (Finite q) \<Rightarrow> round_double neg q))"

text \<open>
  ToString of a parsed JSON value throws a TypeError exactly when OrdinaryToPrimitive
  finds no callable \<open>toString\<close>: on an object whose own property \<open>toString\<close> hides
  \<open>Object.prototype.toString\<close> (\<open>valueOf\<close>, own or inherited, never yields a
  primitive), and on an array whose \<open>join\<close> meets such an element.
\<close>

datatype exception = TypeError jsstring

definition has_own_property :: "(jsstring \<times> jsval) list \<Rightarrow> jsstring \<Rightarrow> bool" where
  "has_own_property kvs k = (k \<in> set (map fst kvs))"

fun ToString_throws :: "jsval \<Rightarrow> bool" where
  "ToString_throws (JObj kvs) = has_own_property kvs (js ''toString'')"
| "ToString_throws (JArr xs) = list_ex ToString_throws xs"
| "ToString_throws _ = False"

definition cannot_convert :: exception where
  "cannot_convert = TypeError (js ''Cannot convert object to primitive value'')"

text \<open>
  ToNumber. A primitive converts directly. An object without a usable \<open>toString\<close>
  throws, any other object becomes \<open>"[object Object]"\<close>, which is NaN. An array becomes
  the text of its elements joined by commas (\<open>undefined\<close> and \<open>null\<close> as the empty text)
  and that text is converted: no element gives 0, two or more give a text with a comma,
  which is NaN, and one element gives the number of its own text, which for a number is
  that number again (\<open>-0\<close> prints as \<open>"0"\<close>).
\<close>

fun ToNumber :: "jsval \<Rightarrow> exception + jsnum" where
  "ToNumber JUndefined = Inr NaN"
| "ToNumber JNull = Inr (Fin 0)"
| "ToNumber (JBool b) = Inr (Fin (if b then 1 else 0))"
| "ToNumber (JNum n) = Inr n"
| "ToNumber (JStr s) = Inr (StringToNumber s)"
| "ToNumber (JObj kvs) =
     (if has_own_property kvs (js ''toString'') then Inl cannot_convert else Inr NaN)"
| "ToNumber (JArr xs) =
     (if list_ex ToString_throws xs then Inl cannot_convert
      else case xs of
             [] \<Rightarrow> Inr (Fin 0)
           | [x] \<Rightarrow>
               (case x of
                  JUndefined \<Rightarrow> Inr (Fin 0)
                | JNull \<Rightarrow> Inr (Fin 0)
                | JBool b \<Rightarrow> Inr NaN
                | JNum n \<Rightarrow> Inr (if n = NegZero then Fin 0 else n)
                | JStr s \<Rightarrow> Inr (StringToNumber s)
                | JArr ys \<Rightarrow> ToNumber x
                | JObj kvs \<Rightarrow> Inr NaN)
           | _ \<Rightarrow> Inr NaN)"

section \<open>decodeBase64Image\<close>

type_synonym byte = "8 word"

text \<open>\<open>[A-Za-z-+/]\<close>\<close>

definition mime_class :: "(code_unit \<times> code_unit) list" where
  "mime_class =
     [(of_char CHR ''A'', of_char CHR ''Z''), (of_char CHR ''a'', of_char CHR ''z''),
      (of_char CHR ''-'', of_char CHR ''-''), (of_char CHR ''+'', of_char CHR ''+''),
      (of_char CHR ''/'', of_char CHR ''/'')]"

text \<open>\<open>/^data:([A-Za-z-+/]+);base64,(.+)$/\<close>\<close>

definition data_uri_regex :: regex where
  "data_uri_regex =
     Seq Bol
       (lits ''data:''
          (Seq (Group 0 (Quant (Class mime_class) 1 None))
             (lits '';base64,''
                (Seq (Group 1 (Quant Dot 1 None)) Eol))))"

text \<open>
  \<^verbatim>\<open>
  function decodeBase64Image(dataString) {
    try {
      let base64Data = dataString;
      const matches = dataString.match(/^data:([A-Za-z-+/]+);base64,(.+)$/);
      if (matches && matches.length === 3) {
        base64Data = matches[2];
      }
      const buffer = Buffer.from(base64Data, "base64");
      return { buffer };
    } catch (err) {
      console.error("Error decoding base64 image:", err.message);
      return { buffer: null };
    }
  }
  \<close>
  Only a string has a \<open>match\<close> method: on any other value the call throws a TypeError,
  as \<open>Buffer.from\<close> does on \<open>undefined\<close>, and the \<open>catch\<close> returns the null buffer.
  \<open>Buffer.from(text, "base64")\<close> is the runtime's decoder, a parameter here; it returns
  a buffer for every text.
\<close>

definition decodeBase64Image :: "(jsstring \<Rightarrow> byte list) \<Rightarrow> jsval \<Rightarrow> byte list option" where
  "decodeBase64Image Buffer_from dataString =
     (case dataString of
        JStr s \<Rightarrow>
          (let matches = rx_exec data_uri_regex 2 s;
               base64Data =
                 (case matches of
                    Some ms \<Rightarrow> if length ms = 3 then ms ! 2 else Some s
                  | None \<Rightarrow> Some s)
           in case base64Data of
                Some d \<Rightarrow> Some (Buffer_from d)
              | None \<Rightarrow> None)
      | _ \<Rightarrow> None)"

text \<open>
  The decoder of Node.js. It reads the low byte of each code unit, skips what is not in
  the base-64 alphabet (\<open>-\<close> and \<open>_\<close> of the URL-safe alphabet count as \<open>+\<close> and \<open>/\<close>),
  and stops at the first \<open>=\<close>. Four characters give three bytes; two or three left
  over give one or two bytes, a single one gives none.
\<close>

definition unbase64 :: "code_unit \<Rightarrow> nat option" where
  "unbase64 c =
     (let b = c AND 0xFF
      in if 0x41 \<le> b \<and> b \<le> 0x5A then Some (unat b - 0x41)
         else if 0x61 \<le> b \<and> b \<le> 0x7A then Some (unat b - 0x61 + 26)
         else if 0x30 \<le> b \<and> b \<le> 0x39 then Some (unat b - 0x30 + 52)
         else if b = 0x2B \<or> b = 0x2D then Some 62
         else if b = 0x2F \<or> b = 0x5F then Some 63
         else None)"

fun sextets_to_bytes :: "nat list \<Rightarrow> byte list" where
  "sextets_to_bytes (a # b # c # d # r) =
     [of_nat (a * 4 + b div 16), of_nat ((b mod 16) * 16 + c div 4), of_nat ((c mod 4) * 64 + d)]
     @ sextets_to_bytes r"
| "sextets_to_bytes [a, b, c] =
     [of_nat (a * 4 + b div 16), of_nat ((b mod 16) * 16 + c div 4)]"
| "sextets_to_bytes [a, b] = [of_nat (a * 4 + b div 16)]"
| "sextets_to_bytes _ = []"

definition node_base64_decode :: "jsstring \<Rightarrow> byte list" where
  "node_base64_decode s =
     sextets_to_bytes
       (List.map_filter unbase64 (takeWhile (\<lambda>c. c AND 0xFF \<noteq> of_char CHR ''='') s))"

section \<open>The world around the handler\<close>

text \<open>
  What the process is configured with and what its environment answers during one
  request: \<open>__dirname\<close>, the \<open>DATABASE_NAME\<close> of the configuration, the clock at
  \<open>Date.now()\<close> and at \<open>new Date()\<close>, whether \<open>fs.mkdirSync\<close> and \<open>fs.writeFileSync\<close> throw,
  and what \<open>insertOne\<close> settles to: an error message, or the identifier of the inserted
  document.
\<close>

type_synonym objectid = jsstring

record world =
  dirname :: jsstring
  DATABASE_NAME :: jsstring
  Date_now :: int
  new_Date :: int
  mkdirSync_throws :: bool
  writeFileSync_throws :: bool
  insertOne :: "jsstring + objectid"
  Buffer_from_base64 :: "jsstring \<Rightarrow> byte list"

text \<open>The document built by the handler.\<close>

record reading =
  doc_field_id :: jsstring
  doc_soil_moisture :: jsnum
  doc_temperature :: jsnum
  doc_humidity :: jsnum
  doc_image_base64 :: jsval
  doc_saved_file :: "jsstring option"
  doc_created_at :: int

text \<open>
  The state a request can change: the directories that exist, the files written, and
  the documents inserted, each with its database and collection.
\<close>

record state =
  dirs :: "jsstring list"
  files :: "(jsstring \<times> byte list) list"
  db :: "(jsstring \<times> jsstring \<times> reading) list"

text \<open>\<open>req.body\<close>, destructured; a property the body lacks is \<open>undefined\<close>.\<close>

record body =
  field_id :: jsval
  soil_moisture :: jsval
  temperature :: jsval
  humidity :: jsval
  image_base64 :: jsval
  database_name :: jsval

datatype response_body =
    Error jsstring                                  \<comment> \<open>\<open>{ error }\<close>\<close>
  | Success objectid jsstring "jsstring option"     \<comment> \<open>\<open>{ success: true, insertedId, collection, saved_file }\<close>\<close>
  | ServerError jsstring                            \<comment> \<open>\<open>{ error: "Server error", details }\<close>\<close>

record response =
  status :: nat
  json :: response_body

text \<open>The four validation failures of the specification and the message of each.\<close>

datatype error_kind = InvalidFieldId | MissingImage | MissingSensorValue | NonNumericSensorValue

fun error_message :: "error_kind \<Rightarrow> jsstring" where
  "error_message InvalidFieldId =
     js ''Invalid field_id. Use only letters, numbers, - and _ (max 100 chars).''"
| "error_message MissingImage = js ''image_base64 is required''"
| "error_message MissingSensorValue = js ''soil_moisture, temperature and humidity are required''"
| "error_message NonNumericSensorValue = js ''Sensor values must be numeric''"

definition bad_request :: "error_kind \<Rightarrow> response" where
  "bad_request k = \<lparr>status = 400, json = Error (error_message k)\<rparr>"

definition server_error :: "jsstring \<Rightarrow> response" where
  "server_error details = \<lparr>status = 500, json = ServerError details\<rparr>"

section \<open>Saving the image\<close>

text \<open>
  \<open>path.join\<close> on POSIX, for the two calls of the handler: the first argument is a
  normalized absolute path (\<open>__dirname\<close>, or the uploads directory under it) and the
  second a single segment, so joining puts one \<open>/\<close> between them.
\<close>

definition path_join :: "jsstring \<Rightarrow> jsstring \<Rightarrow> jsstring" where
  "path_join a b = (if a \<noteq> [] \<and> last a = of_char CHR ''/'' then a @ b else a @ js ''/'' @ b)"

text \<open>The decimal text of an integer, as a template literal prints \<open>Date.now()\<close>.\<close>

function digits :: "int \<Rightarrow> jsstring" where
  "digits n =
     (if n < 10 then [of_int (0x30 + n)] else digits (n div 10) @ [of_int (0x30 + n mod 10)])"
  by pat_completeness auto
termination
  by (relation "measure nat") auto

declare digits.simps [simp del]

definition int_to_string :: "int \<Rightarrow> jsstring" where
  "int_to_string i = (if i < 0 then js ''-'' @ digits (- i) else digits i)"

text \<open>\<^verbatim>\<open>`${collectionName}_${timestamp}.jpg`\<close>\<close>

definition image_file_name :: "jsstring \<Rightarrow> int \<Rightarrow> jsstring" where
  "image_file_name collectionName timestamp =
     collectionName @ js ''_'' @ int_to_string timestamp @ js ''.jpg''"

text \<open>
  \<^verbatim>\<open>
    let savedFilename = null;
    try {
      if (buffer) {
        const uploadsDir = path.join(__dirname, "uploads");
        if (!fs.existsSync(uploadsDir)) {
          fs.mkdirSync(uploadsDir, { recursive: true });
        }
        const timestamp = Date.now();
        savedFilename = path.join(uploadsDir, `${collectionName}_${timestamp}.jpg`);
        fs.writeFileSync(savedFilename, buffer);
      }
    } catch (e) {
      console.warn("Could not save image locally:", e.message);
    }
  \<close>
  A Buffer is truthy whatever its length. \<open>savedFilename\<close> is assigned before the file
  is written, so it keeps the path when \<open>writeFileSync\<close> throws.
\<close>

definition save_image ::
    "world \<Rightarrow> state \<Rightarrow> jsstring \<Rightarrow> byte list option \<Rightarrow> jsstring option \<times> state" where
  "save_image w st collectionName buffer =
     (case buffer of
        None \<Rightarrow> (None, st)
      | Some buf \<Rightarrow>
          (let uploadsDir = path_join (dirname w) (js ''uploads'')
           in if uploadsDir \<notin> set (dirs st) \<and> mkdirSync_throws w then (None, st)
              else
                let st1 = (if uploadsDir \<notin> set (dirs st)
                           then st\<lparr>dirs := uploadsDir # dirs st\<rparr> else st);
                    timestamp = Date_now w;
                    savedFilename = path_join uploadsDir (image_file_name collectionName timestamp)
                in if writeFileSync_throws w then (Some savedFilename, st1)
                   else (Some savedFilename,
                         st1\<lparr>files := files st1 @ [(savedFilename, buf)]\<rparr>)))"

section \<open>POST /api/store-reading\<close>

definition nullish :: "jsval \<Rightarrow> bool" where
  "nullish v = (v = JUndefined \<or> v = JNull)"

definition is_string :: "jsval \<Rightarrow> bool" where
  "is_string v = (case v of JStr s \<Rightarrow> True | _ \<Rightarrow> False)"

text \<open>
  The handler of \<open>app.post("/api/store-reading", ...)\<close>, lines 51 to 153 of \<open>server.js\<close>:
  the response and the state it leaves. \<open>!collectionName\<close> is true of \<open>null\<close> and of the
  empty string. An exception of \<open>Number(...)\<close> or a rejected \<open>insertOne\<close> reaches the outer
  \<open>catch\<close>, which answers 500 with the message; \<open>database_name\<close> is destructured and not
  used.
\<close>

definition handler :: "world \<Rightarrow> state \<Rightarrow> body \<Rightarrow> response \<times> state" where
  "handler w st b =
     (case sanitizeCollectionName (field_id b) of
        None \<Rightarrow> (bad_request InvalidFieldId, st)
      | Some collectionName \<Rightarrow>
          if collectionName = [] then (bad_request InvalidFieldId, st)
          else if nullish (image_base64 b) then (bad_request MissingImage, st)
          else if list_ex (\<lambda>v. v = JUndefined \<or> v = JNull)
                    [soil_moisture b, temperature b, humidity b]
          then (bad_request MissingSensorValue, st)
          else
            (case ToNumber (soil_moisture b) of
               Inl (TypeError m) \<Rightarrow> (server_error m, st)
             | Inr soil \<Rightarrow>
            (case ToNumber (temperature b) of
               Inl (TypeError m) \<Rightarrow> (server_error m, st)
             | Inr temp \<Rightarrow>
            (case ToNumber (humidity b) of
               Inl (TypeError m) \<Rightarrow> (server_error m, st)
             | Inr hum \<Rightarrow>
               if list_ex (\<lambda>n. n = NaN) [soil, temp, hum]
               then (bad_request NonNumericSensorValue, st)
               else
                 let buffer = decodeBase64Image (Buffer_from_base64 w) (image_base64 b);
                     (savedFilename, st1) = save_image w st collectionName buffer;
                     doc = \<lparr>doc_field_id = collectionName,
                            doc_soil_moisture = soil,
                            doc_temperature = temp,
                            doc_humidity = hum,
                            doc_image_base64 = image_base64 b,
                            doc_saved_file = savedFilename,
                            doc_created_at = new_Date w\<rparr>
                 in (case insertOne w of
                       Inl m \<Rightarrow> (server_error m, st1)
                     | Inr insertedId \<Rightarrow>
                         (\<lparr>status = 200,
                           json = Success insertedId collectionName savedFilename\<rparr>,
                          st1\<lparr>db := db st1 @ [(DATABASE_NAME w, collectionName, doc)]\<rparr>))))))"

section \<open>The wording of the specification\<close>

text \<open>
  A valid \<open>field_id\<close>: a string whose trimmed form is one to 100 characters drawn from
  ASCII letters, digits, underscore, hyphen.
\<close>

definition valid_field_id :: "jsval \<Rightarrow> bool" where
  "valid_field_id v = (case v of JStr s \<Rightarrow> well_formed_name (trim s) | _ \<Rightarrow> False)"

text \<open>A non-finite number: not-a-number or an infinity of either sign.\<close>

definition non_finite :: "jsnum \<Rightarrow> bool" where
  "non_finite n = (n = NaN \<or> n = PosInf \<or> n = NegInf)"



text \<open>A character of a media type the data-URI pattern admits: an ASCII letter, \<open>-\<close>, \<open>+\<close> or \<open>/\<close>.\<close>

definition mime_char :: "code_unit \<Rightarrow> bool" where
  "mime_char c =
     ((0x41 \<le> c \<and> c \<le> 0x5A) \<or> (0x61 \<le> c \<and> c \<le> 0x7A) \<or> c = 0x2D \<or> c = 0x2B \<or> c = 0x2F)"

text \<open>
  The pattern \<open>uploads/<name>_<digits>.jpg\<close> of a path relative to the working
  directory.
\<close>

definition relative_upload_path :: "jsstring \<Rightarrow> jsstring \<Rightarrow> bool" where
  "relative_upload_path name p =
     (let pre = js ''uploads/'' @ name @ js ''_'';
          r = drop (length pre) p
      in take (length pre) p = pre
         \<and> takeWhile (is_digit 10) r \<noteq> []
         \<and> dropWhile (is_digit 10) r = js ''.jpg'')"

section \<open>A request of the specification's scenarios\<close>

definition example_world :: world where
  "example_world =
     \<lparr>dirname = js ''/srv/app'',
      DATABASE_NAME = js ''AgriVision_IoT'',
      Date_now = 1700000000000,
      new_Date = 1700000000001,
      mkdirSync_throws = False,
      writeFileSync_throws = False,
      insertOne = Inr (js ''65a1b2c3d4e5f60718293a4b''),
      Buffer_from_base64 = node_base64_decode\<rparr>"

definition empty_state :: state where
  "empty_state = \<lparr>dirs = [], files = [], db = []\<rparr>"

definition example_body :: body where
  "example_body =
     \<lparr>field_id = JStr (js ''Field_01''),
      soil_moisture = JStr (js ''42.5''),
      temperature = JNum (Fin 21),
      humidity = JNum (Fin 60),
      image_base64 = JStr (js ''QQ==''),
      database_name = JUndefined\<rparr>"

section \<open>Properties of the regular-expression matcher\<close>

text \<open>The length of the longest run of characters satisfying \<open>P\<close> from index \<open>i\<close> on.\<close>

definition run :: "('a \<Rightarrow> bool) \<Rightarrow> 'a list \<Rightarrow> nat \<Rightarrow> nat" where
  "run P s i = length (takeWhile P (drop i s))"

lemma run_step: "i < length s \<Longrightarrow> P (s ! i) \<Longrightarrow> run P s i = Suc (run P s (Suc i))"
  by (simp add: run_def Cons_nth_drop_Suc [symmetric])

lemma run_stop: "\<not> (i < length s \<and> P (s ! i)) \<Longrightarrow> run P s i = 0"
  by (cases "i < length s") (simp_all add: run_def Cons_nth_drop_Suc [symmetric])

lemma run_le: "i + run P s i \<le> max i (length s)"
  unfolding run_def using length_takeWhile_le [of P "drop i s"] by simp

lemma run_all: "run P s 0 = length s \<longleftrightarrow> list_all P s"
  unfolding run_def by (induction s) (auto simp: list_all_iff)

text \<open>
  A quantifier over an atom that consumes one character satisfying \<open>P\<close> ends at every
  index from the longest run allowed down to the minimum, longest first.
\<close>

lemma iter_atom:
  assumes f: "\<And>i c. f (i, c) = (if i < length s \<and> P (s ! i) then [(Suc i, c)] else [])"
  shows "iter f lo h (i, c) = map (\<lambda>j. (j, c)) (rev [i + lo ..< Suc (i + min h (run P s i))])"
proof (induction h arbitrary: lo i)
  case 0
  show ?case by simp
next
  case (Suc h)
  show ?case
  proof (cases "i < length s \<and> P (s ! i)")
    case False
    then show ?thesis by (auto simp: f run_stop)
  next
    case True
    then have r: "run P s i = Suc (run P s (Suc i))" by (simp add: run_step)
    show ?thesis
    proof (cases lo)
      case 0
      define m where "m = min h (run P s (Suc i))"
      have u: "[i..<Suc (Suc (i + m))] = i # [Suc i..<Suc (Suc (i + m))]"
        by (simp add: upt_conv_Cons)
      have "iter f lo (Suc h) (i, c) = iter f 0 h (Suc i, c) @ [(i, c)]"
        using 0 True by (simp add: f)
      also have "\<dots> = map (\<lambda>j. (j, c)) (rev [Suc i..<Suc (Suc (i + m))]) @ [(i, c)]"
        by (simp add: Suc.IH m_def del: upt_Suc)
      also have "\<dots> = map (\<lambda>j. (j, c)) (rev [i..<Suc (Suc (i + m))])"
        by (simp only: u rev.simps list.map map_append)
      finally show ?thesis using 0 by (simp add: r m_def del: upt_Suc)
    next
      case (Suc lo')
      with True show ?thesis by (simp add: f r Suc.IH del: upt_Suc)
    qed
  qed
qed

lemma rx_exec_Bol: "rx_exec (Seq Bol r) n s = exec_at (Seq Bol r) n s 0"
proof -
  have z: "\<And>i. 0 < i \<Longrightarrow> exec_at (Seq Bol r) n s i = None"
    by (simp add: exec_at_def)
  have "[0..<Suc (length s)] = 0 # [1..<Suc (length s)]"
    by (simp add: upt_conv_Cons del: upt_Suc)
  moreover have "List.map_filter (exec_at (Seq Bol r) n s) [1..<Suc (length s)] = []"
    by (simp add: List.map_filter_def filter_empty_conv z del: upt_Suc)
  ultimately show ?thesis
    by (simp add: rx_exec_def List.map_filter_simps del: upt_Suc split: option.splits list.splits)
qed

lemma rx_test_Bol:
  "rx_test (Seq Bol r) n s \<longleftrightarrow> rxm (Seq Bol r) s (0, replicate n None) \<noteq> []"
  unfolding rx_test_def rx_exec_Bol by (simp add: exec_at_def split: list.splits)

lemma concat_map_Eol:
  "concat (map (rxm Eol s \<circ> (\<lambda>j. (j, c))) ks)
     = map (\<lambda>j. (j, c)) (filter (\<lambda>j. j = length s) ks)"
  by (induction ks) auto

section \<open>Properties of sanitizeCollectionName\<close>

lemma in_field_id_class: "in_class field_id_class c = allowed_char c"
  by (auto simp: in_class_def field_id_class_def allowed_char_def)

text \<open>The regular expression accepts exactly the names the specification words.\<close>

lemma field_id_regex_test: "rx_test field_id_regex 0 t = well_formed_name t"
proof -
  let ?P = "in_class field_id_class"
  have f: "\<And>i c. rxm (Class field_id_class) t (i, c)
             = (if i < length t \<and> ?P (t ! i) then [(Suc i, c)] else [])"
    by simp
  have m: "rxm field_id_regex t (0, []) =
        map (\<lambda>j. (j, [])) (filter (\<lambda>j. j = length t) (rev [1 ..< Suc (min 100 (run ?P t 0))]))"
    unfolding field_id_regex_def
    by (simp add: iter_atom [where P = ?P and s = t, OF f] concat_map_Eol del: upt_Suc)
  have "rx_test field_id_regex 0 t \<longleftrightarrow> rxm field_id_regex t (0, []) \<noteq> []"
    using rx_test_Bol [of "Seq (Quant (Class field_id_class) 1 (Some 100)) Eol" 0 t]
    by (simp add: field_id_regex_def)
  also have "\<dots> \<longleftrightarrow> 1 \<le> length t \<and> length t \<le> min 100 (run ?P t 0)"
    unfolding m by (auto simp: filter_empty_conv simp del: upt_Suc)
  also have "\<dots> \<longleftrightarrow> 1 \<le> length t \<and> length t \<le> 100 \<and> run ?P t 0 = length t"
    using run_le [of 0 ?P t] by auto
  also have "\<dots> \<longleftrightarrow> well_formed_name t"
    by (simp add: run_all well_formed_name_def in_field_id_class [abs_def])
  finally show ?thesis .
qed

lemma sanitize_Some_iff:
  "sanitizeCollectionName v = Some c \<longleftrightarrow> (\<exists>s. v = JStr s \<and> c = trim s \<and> well_formed_name c)"
  by (cases v) (auto simp: sanitizeCollectionName_def field_id_regex_test Let_def)

lemma sanitize_None_iff: "sanitizeCollectionName v = None \<longleftrightarrow> \<not> valid_field_id v"
  by (cases v) (auto simp: sanitizeCollectionName_def valid_field_id_def field_id_regex_test Let_def)

lemma sanitize_nonempty: "sanitizeCollectionName v = Some c \<Longrightarrow> c \<noteq> []"
  by (auto simp: sanitize_Some_iff well_formed_name_def)

section \<open>The branches of the handler\<close>

lemma error_message_inj: "error_message k = error_message k' \<longleftrightarrow> k = k'"
  by (cases k; cases k') (simp_all add: js_def)

lemma bad_request_inj: "bad_request k = bad_request k' \<longleftrightarrow> k = k'"
  by (simp add: bad_request_def error_message_inj)

lemma handler_invalid:
  "sanitizeCollectionName (field_id b) = None \<Longrightarrow> handler w st b = (bad_request InvalidFieldId, st)"
  by (simp add: handler_def)

lemma handler_missing_image:
  "sanitizeCollectionName (field_id b) = Some c \<Longrightarrow> nullish (image_base64 b)
   \<Longrightarrow> handler w st b = (bad_request MissingImage, st)"
  by (simp add: handler_def sanitize_nonempty)

lemma handler_missing_sensor:
  "sanitizeCollectionName (field_id b) = Some c \<Longrightarrow> \<not> nullish (image_base64 b)
   \<Longrightarrow> nullish (soil_moisture b) \<or> nullish (temperature b) \<or> nullish (humidity b)
   \<Longrightarrow> handler w st b = (bad_request MissingSensorValue, st)"
  by (auto simp: handler_def sanitize_nonempty nullish_def)

lemma handler_nan:
  "sanitizeCollectionName (field_id b) = Some c \<Longrightarrow> \<not> nullish (image_base64 b)
   \<Longrightarrow> \<not> nullish (soil_moisture b) \<Longrightarrow> \<not> nullish (temperature b) \<Longrightarrow> \<not> nullish (humidity b)
   \<Longrightarrow> ToNumber (soil_moisture b) = Inr x \<Longrightarrow> ToNumber (temperature b) = Inr y
   \<Longrightarrow> ToNumber (humidity b) = Inr z \<Longrightarrow> x = NaN \<or> y = NaN \<or> z = NaN
   \<Longrightarrow> handler w st b = (bad_request NonNumericSensorValue, st)"
  by (auto simp: handler_def sanitize_nonempty nullish_def)

lemma handler_persist:
  "sanitizeCollectionName (field_id b) = Some c \<Longrightarrow> \<not> nullish (image_base64 b)
   \<Longrightarrow> \<not> nullish (soil_moisture b) \<Longrightarrow> \<not> nullish (temperature b) \<Longrightarrow> \<not> nullish (humidity b)
   \<Longrightarrow> ToNumber (soil_moisture b) = Inr x \<Longrightarrow> ToNumber (temperature b) = Inr y
   \<Longrightarrow> ToNumber (humidity b) = Inr z \<Longrightarrow> x \<noteq> NaN \<Longrightarrow> y \<noteq> NaN \<Longrightarrow> z \<noteq> NaN
   \<Longrightarrow> save_image w st c (decodeBase64Image (Buffer_from_base64 w) (image_base64 b)) = (f, st1)
   \<Longrightarrow> handler w st b =
        (case insertOne w of
           Inl m \<Rightarrow> (server_error m, st1)
         | Inr i \<Rightarrow>
             (\<lparr>status = 200, json = Success i c f\<rparr>,
              st1\<lparr>db := db st1 @ [(DATABASE_NAME w, c,
                     \<lparr>doc_field_id = c, doc_soil_moisture = x, doc_temperature = y,
                      doc_humidity = z, doc_image_base64 = image_base64 b,
                      doc_saved_file = f, doc_created_at = new_Date w\<rparr>)]\<rparr>))"
  by (auto simp: handler_def sanitize_nonempty nullish_def)

lemma handler_throws:
  assumes c: "sanitizeCollectionName (field_id b) = Some c"
    and img: "\<not> nullish (image_base64 b)"
    and p: "\<not> nullish (soil_moisture b)" "\<not> nullish (temperature b)" "\<not> nullish (humidity b)"
    and t: "\<not> (\<exists>x y z. ToNumber (soil_moisture b) = Inr x \<and> ToNumber (temperature b) = Inr y
                 \<and> ToNumber (humidity b) = Inr z)"
  shows "\<exists>m. (ToNumber (soil_moisture b) = Inl (TypeError m)
           \<or> ToNumber (temperature b) = Inl (TypeError m)
           \<or> ToNumber (humidity b) = Inl (TypeError m))
          \<and> handler w st b = (server_error m, st)"
proof -
  have h: "handler w st b =
     (case ToNumber (soil_moisture b) of
        Inl (TypeError m) \<Rightarrow> (server_error m, st)
      | Inr soil \<Rightarrow>
          (case ToNumber (temperature b) of
             Inl (TypeError m) \<Rightarrow> (server_error m, st)
           | Inr temp \<Rightarrow>
               (case ToNumber (humidity b) of
                  Inl (TypeError m) \<Rightarrow> (server_error m, st)
                | Inr hum \<Rightarrow> handler w st b)))"
    using c img p
    by (simp add: handler_def sanitize_nonempty nullish_def split: sum.splits exception.splits)
  show ?thesis
  proof (cases "ToNumber (soil_moisture b)")
    case (Inl e)
    then show ?thesis using h by (cases e) auto
  next
    case x: (Inr x)
    show ?thesis
    proof (cases "ToNumber (temperature b)")
      case (Inl e)
      then show ?thesis using h x by (cases e) auto
    next
      case y: (Inr y)
      show ?thesis
      proof (cases "ToNumber (humidity b)")
        case (Inl e)
        then show ?thesis using h x y by (cases e) auto
      next
        case (Inr z)
        then show ?thesis using t x y by simp
      qed
    qed
  qed
qed

text \<open>Every way the handler can answer.\<close>

lemma handler_cases:
  obtains
    (invalid) "sanitizeCollectionName (field_id b) = None"
      "handler w st b = (bad_request InvalidFieldId, st)"
  | (no_image) c where "sanitizeCollectionName (field_id b) = Some c"
      "nullish (image_base64 b)" "handler w st b = (bad_request MissingImage, st)"
  | (no_sensor) c where "sanitizeCollectionName (field_id b) = Some c"
      "\<not> nullish (image_base64 b)"
      "nullish (soil_moisture b) \<or> nullish (temperature b) \<or> nullish (humidity b)"
      "handler w st b = (bad_request MissingSensorValue, st)"
  | (throws) c m where "sanitizeCollectionName (field_id b) = Some c"
      "\<not> nullish (image_base64 b)"
      "\<not> nullish (soil_moisture b)" "\<not> nullish (temperature b)" "\<not> nullish (humidity b)"
      "ToNumber (soil_moisture b) = Inl (TypeError m) \<or> ToNumber (temperature b) = Inl (TypeError m)
         \<or> ToNumber (humidity b) = Inl (TypeError m)"
      "handler w st b = (server_error m, st)"
  | (nan) c x y z where "sanitizeCollectionName (field_id b) = Some c"
      "\<not> nullish (image_base64 b)"
      "\<not> nullish (soil_moisture b)" "\<not> nullish (temperature b)" "\<not> nullish (humidity b)"
      "ToNumber (soil_moisture b) = Inr x" "ToNumber (temperature b) = Inr y"
      "ToNumber (humidity b) = Inr z" "x = NaN \<or> y = NaN \<or> z = NaN"
      "handler w st b = (bad_request NonNumericSensorValue, st)"
  | (insert_fails) c x y z f st1 m where "sanitizeCollectionName (field_id b) = Some c"
      "\<not> nullish (image_base64 b)"
      "\<not> nullish (soil_moisture b)" "\<not> nullish (temperature b)" "\<not> nullish (humidity b)"
      "ToNumber (soil_moisture b) = Inr x" "ToNumber (temperature b) = Inr y"
      "ToNumber (humidity b) = Inr z" "x \<noteq> NaN" "y \<noteq> NaN" "z \<noteq> NaN"
      "save_image w st c (decodeBase64Image (Buffer_from_base64 w) (image_base64 b)) = (f, st1)"
      "insertOne w = Inl m" "handler w st b = (server_error m, st1)"
  | (inserted) c x y z f st1 i where "sanitizeCollectionName (field_id b) = Some c"
      "\<not> nullish (image_base64 b)"
      "\<not> nullish (soil_moisture b)" "\<not> nullish (temperature b)" "\<not> nullish (humidity b)"
      "ToNumber (soil_moisture b) = Inr x" "ToNumber (temperature b) = Inr y"
      "ToNumber (humidity b) = Inr z" "x \<noteq> NaN" "y \<noteq> NaN" "z \<noteq> NaN"
      "save_image w st c (decodeBase64Image (Buffer_from_base64 w) (image_base64 b)) = (f, st1)"
      "insertOne w = Inr i"
      "handler w st b =
         (\<lparr>status = 200, json = Success i c f\<rparr>,
          st1\<lparr>db := db st1 @ [(DATABASE_NAME w, c,
                 \<lparr>doc_field_id = c, doc_soil_moisture = x, doc_temperature = y,
                  doc_humidity = z, doc_image_base64 = image_base64 b,
                  doc_saved_file = f, doc_created_at = new_Date w\<rparr>)]\<rparr>)"
proof (cases "sanitizeCollectionName (field_id b)")
  case None
  then show ?thesis using invalid handler_invalid by blast
next
  case (Some c)
  note c = Some
  show ?thesis
  proof (cases "nullish (image_base64 b)")
    case True
    then show ?thesis using no_image c handler_missing_image by blast
  next
    case img: False
    show ?thesis
    proof (cases "nullish (soil_moisture b) \<or> nullish (temperature b) \<or> nullish (humidity b)")
      case True
      then show ?thesis using no_sensor c img handler_missing_sensor by blast
    next
      case False
      then have p: "\<not> nullish (soil_moisture b)" "\<not> nullish (temperature b)"
        "\<not> nullish (humidity b)" by auto
      show ?thesis
      proof (cases "\<exists>x y z. ToNumber (soil_moisture b) = Inr x \<and> ToNumber (temperature b) = Inr y
                 \<and> ToNumber (humidity b) = Inr z")
        case False
        from handler_throws [OF c img p this]
        obtain m where "ToNumber (soil_moisture b) = Inl (TypeError m)
           \<or> ToNumber (temperature b) = Inl (TypeError m) \<or> ToNumber (humidity b) = Inl (TypeError m)"
          and "handler w st b = (server_error m, st)"
          by blast
        then show ?thesis using throws c img p by blast
      next
        case True
        then obtain x y z where n: "ToNumber (soil_moisture b) = Inr x"
          "ToNumber (temperature b) = Inr y" "ToNumber (humidity b) = Inr z" by blast
        show ?thesis
        proof (cases "x = NaN \<or> y = NaN \<or> z = NaN")
          case True
          then show ?thesis using nan [OF c img p n] handler_nan [OF c img p n] by blast
        next
          case False
          then have q: "x \<noteq> NaN" "y \<noteq> NaN" "z \<noteq> NaN" by auto
          obtain f st1 where
            s: "save_image w st c (decodeBase64Image (Buffer_from_base64 w) (image_base64 b)) = (f, st1)"
            by (cases "save_image w st c (decodeBase64Image (Buffer_from_base64 w) (image_base64 b))")
          note h = handler_persist [OF c img p n q s]
          show ?thesis
          proof (cases "insertOne w")
            case (Inl m)
            then show ?thesis using insert_fails [OF c img p n q s Inl] h by simp
          next
            case (Inr i)
            then show ?thesis using inserted [OF c img p n q s Inr] h by simp
          qed
        qed
      qed
    qed
  qed
qed

lemma status_bad_request: "status (bad_request k) = 400"
  by (simp add: bad_request_def)

lemma json_bad_request: "json (bad_request k) = Error (error_message k)"
  by (simp add: bad_request_def)

lemma save_image_db: "save_image w st c buf = (f, st1) \<Longrightarrow> db st1 = db st"
  by (auto simp: save_image_def Let_def split: option.splits if_splits)



section \<open>Properties of the data-URI pattern\<close>

lemma run_bound: "run P s i \<le> length s - i"
  unfolding run_def using length_takeWhile_le [of P "drop i s"] by simp

lemma run_nth:
  assumes "i \<le> j" "j < i + run P s i"
  shows "j < length s \<and> P (s ! j)"
proof -
  have b: "j - i < length (takeWhile P (drop i s))"
    using assms by (simp add: run_def)
  then have l: "j - i < length (drop i s)"
    using length_takeWhile_le [of P "drop i s"] by linarith
  have "P (takeWhile P (drop i s) ! (j - i))"
    using b nth_mem set_takeWhileD by metis
  moreover have "takeWhile P (drop i s) ! (j - i) = drop i s ! (j - i)"
    using b by (rule takeWhile_nth)
  ultimately show ?thesis using l assms by simp
qed

lemma run_append:
  assumes "list_all P xs" "rest = [] \<or> \<not> P (hd rest)"
  shows "run P (pre @ xs @ rest) (length pre) = length xs"
proof -
  have "takeWhile P rest = []"
    using assms(2) by (cases rest) auto
  then show ?thesis
    using assms(1) by (simp add: run_def list_all_iff takeWhile_append2)
qed

lemma rxm_lits:
  "rxm (lits cs r) s (i, c) =
     (if take (length cs) (drop i s) = js cs then rxm r s (i + length cs, c) else [])"
proof (induction cs arbitrary: i)
  case Nil
  show ?case by (simp add: lits_def js_def)
next
  case (Cons a cs)
  have l: "lits (a # cs) r = Seq (Lit (of_char a)) (lits cs r)"
    by (simp add: lits_def)
  show ?case
  proof (cases "i < length s")
    case True
    then have d: "drop i s = s ! i # drop (Suc i) s"
      by (simp add: Cons_nth_drop_Suc)
    show ?thesis
      using True Cons.IH [of "Suc i"] by (auto simp: l d js_def)
  next
    case False
    then show ?thesis by (simp add: l js_def)
  qed
qed

lemma rxm_plus_atom:
  assumes f: "\<And>i c. f (i, c) = (if i < length s \<and> P (s ! i) then [(Suc i, c)] else [])"
  shows "iter f 1 (1 + (length s - i)) (i, c)
           = map (\<lambda>j. (j, c)) (rev [Suc i ..< Suc (i + run P s i)])"
proof -
  have "min (1 + (length s - i)) (run P s i) = run P s i"
    using run_bound [of P s i] by simp
  then show ?thesis
    using iter_atom [where f = f and s = s and P = P and lo = 1
        and h = "1 + (length s - i)" and i = i and c = c, OF f]
    by simp
qed

lemma concat_rev_upt_last:
  assumes "\<And>j. a \<le> j \<Longrightarrow> j < m \<Longrightarrow> g j = []"
  shows "concat (map g (rev [a ..< Suc m])) = (if a \<le> m then g m else [])"
proof (cases "a \<le> m")
  case True
  have "concat (map g (rev [a ..< m])) = []"
    using assms by (simp add: concat_eq_Nil_conv)
  then show ?thesis using True by simp
next
  case False
  then show ?thesis by simp
qed

text \<open>What the data-URI pattern matches, and what it captures.\<close>

lemma data_uri_rxm:
  fixes s :: jsstring
  defines "m \<equiv> run (in_class mime_class) s 5"
  defines "k \<equiv> 5 + m + 8"
  defines "n \<equiv> run (\<lambda>c. \<not> is_line_terminator c) s k"
  shows "rxm data_uri_regex s (0, [None, None]) =
     (if take 5 s = js ''data:'' \<and> 1 \<le> m \<and> take 8 (drop (5 + m) s) = js '';base64,''
         \<and> 1 \<le> n \<and> k + n = length s
      then [(length s, [Some (substring s 5 (5 + m)), Some (substring s k (length s))])]
      else [])"
proof -
  let ?P = "in_class mime_class"
  let ?Q = "\<lambda>c. \<not> is_line_terminator c"
  let ?c1 = "[Some (substring s 5 (5 + m)), None]"
  define R2 where "R2 = Seq (Group 1 (Quant Dot 1 None)) Eol"
  define L where "L = lits '';base64,'' R2"
  define R1 where "R1 = Seq (Group 0 (Quant (Class mime_class) 1 None)) L"
  have r: "data_uri_regex = Seq Bol (lits ''data:'' R1)"
    by (simp add: data_uri_regex_def R1_def L_def R2_def)
  have step1: "rxm data_uri_regex s (0, [None, None]) =
      (if take 5 s = js ''data:'' then rxm R1 s (5, [None, None]) else [])"
    by (simp add: r rxm_lits eval_nat_numeral)
  have fP: "\<And>i c. rxm (Class mime_class) s (i, c)
             = (if i < length s \<and> ?P (s ! i) then [(Suc i, c)] else [])"
    by simp
  have fQ: "\<And>i c. rxm Dot s (i, c)
             = (if i < length s \<and> ?Q (s ! i) then [(Suc i, c)] else [])"
    by simp
  have semi: "\<not> ?P (of_char CHR '';'')"
    by (simp add: in_class_def mime_class_def)
  have g1: "rxm L s (j, c) = []" if "6 \<le> j" "j < 5 + m" for j c
  proof -
    have "j < length s \<and> ?P (s ! j)"
      using run_nth [of 5 j ?P s] that by (simp add: m_def)
    then have "drop j s = s ! j # drop (Suc j) s" "s ! j \<noteq> of_char CHR '';''"
      using semi by (auto simp: Cons_nth_drop_Suc)
    then show ?thesis by (simp add: L_def rxm_lits js_def)
  qed
  have "rxm R1 s (5, [None, None]) =
      concat (map (\<lambda>j. rxm L s (j, [Some (substring s 5 j), None])) (rev [6 ..< Suc (5 + m)]))"
    using rxm_plus_atom [where f = "rxm (Class mime_class) s" and P = ?P and s = s
        and i = 5 and c = "[None, None]", OF fP]
    by (simp add: R1_def m_def comp_def del: upt_Suc)
  also have "\<dots> = (if 6 \<le> 5 + m then rxm L s (5 + m, ?c1) else [])"
    by (rule concat_rev_upt_last) (rule g1)
  finally have step2: "rxm R1 s (5, [None, None]) =
      (if 1 \<le> m then rxm L s (5 + m, ?c1) else [])"
    by simp
  have step3: "rxm L s (5 + m, ?c1) =
      (if take 8 (drop (5 + m) s) = js '';base64,'' then rxm R2 s (k, ?c1) else [])"
    by (simp add: L_def rxm_lits k_def eval_nat_numeral)
  have g2: "rxm Eol s (j, c) = []" if "Suc k \<le> j" "j < k + n" for j c
    using run_nth [of k j ?Q s] that by (simp add: n_def)
  have "rxm R2 s (k, ?c1) =
      concat (map (\<lambda>j. rxm Eol s (j, [Some (substring s 5 (5 + m)), Some (substring s k j)]))
                (rev [Suc k ..< Suc (k + n)]))"
    using rxm_plus_atom [where f = "rxm Dot s" and P = ?Q and s = s
        and i = k and c = ?c1, OF fQ]
    by (simp add: R2_def n_def comp_def del: upt_Suc)
  also have "\<dots> = (if Suc k \<le> k + n
       then rxm Eol s (k + n, [Some (substring s 5 (5 + m)), Some (substring s k (k + n))])
       else [])"
    by (rule concat_rev_upt_last) (rule g2)
  finally have step4: "rxm R2 s (k, ?c1) =
      (if 1 \<le> n \<and> k + n = length s
       then [(length s, [Some (substring s 5 (5 + m)), Some (substring s k (length s))])]
       else [])"
    by auto
  show ?thesis
    unfolding step1 step2 step3 step4 by simp
qed

lemma rx_exec_data_uri:
  "rx_exec data_uri_regex 2 s =
     (case rxm data_uri_regex s (0, [None, None]) of
        [] \<Rightarrow> None
      | st # _ \<Rightarrow> Some (Some (substring s 0 (fst st)) # snd st))"
proof -
  have "rx_exec data_uri_regex 2 s = exec_at data_uri_regex 2 s 0"
    unfolding data_uri_regex_def by (rule rx_exec_Bol)
  then show ?thesis
    by (simp add: exec_at_def eval_nat_numeral)
qed

lemma data_uri_match:
  assumes mime: "mime \<noteq> []" "list_all (in_class mime_class) mime"
    and payload: "payload \<noteq> []" "list_all (\<lambda>c. \<not> is_line_terminator c) payload"
  shows "rx_exec data_uri_regex 2 (js ''data:'' @ mime @ js '';base64,'' @ payload)
           = Some [Some (js ''data:'' @ mime @ js '';base64,'' @ payload), Some mime, Some payload]"
proof -
  define s where "s = js ''data:'' @ mime @ js '';base64,'' @ payload"
  let ?P = "in_class mime_class"
  let ?Q = "\<lambda>c. \<not> is_line_terminator c"
  have l5: "length (js ''data:'') = 5" and l8: "length (js '';base64,'') = 8"
    by (simp_all add: js_def)
  have semi: "\<not> ?P (hd (js '';base64,'' @ payload))"
    by (simp add: js_def in_class_def mime_class_def)
  have m: "run ?P s 5 = length mime"
    using run_append [of ?P mime "js '';base64,'' @ payload" "js ''data:''"] mime(2) semi
    by (simp add: s_def l5)
  have s': "s = (js ''data:'' @ mime @ js '';base64,'') @ payload @ []"
    by (simp add: s_def)
  have n: "run ?Q s (13 + length mime) = length payload"
    using run_append [of ?Q payload "[]" "js ''data:'' @ mime @ js '';base64,''"] payload(2)
    unfolding s' [symmetric] by (simp add: l5 l8)
  have t5: "take 5 s = js ''data:''"
    by (simp add: s_def l5)
  have t8: "take 8 (drop (5 + length mime) s) = js '';base64,''"
    by (simp add: s_def l5 l8)
  have len: "length s = 13 + length mime + length payload"
    by (simp add: s_def l5 l8)
  have c1: "substring s 5 (5 + length mime) = mime"
    by (simp add: substring_def s_def l5)
  have c2: "substring s (13 + length mime) (13 + length mime + length payload) = payload"
    by (simp add: substring_def s_def l5 l8)
  have c0: "substring s 0 (13 + length mime + length payload) = s"
    by (simp add: substring_def len)
  have "rxm data_uri_regex s (0, [None, None])
          = [(13 + length mime + length payload, [Some mime, Some payload])]"
    using mime(1) payload(1)
    by (simp add: data_uri_rxm m n t5 t8 len c1 c2 Suc_le_eq)
  then show ?thesis
    unfolding s_def [symmetric] by (simp add: rx_exec_data_uri c0)
qed

lemma in_mime_class: "in_class mime_class c = mime_char c"
  by (auto simp: in_class_def mime_class_def mime_char_def)

section \<open>Properties of saving the image\<close>

lemma valid_sanitize: "valid_field_id v \<Longrightarrow> \<exists>s. v = JStr s \<and> sanitizeCollectionName v = Some (trim s)"
  by (cases v) (simp_all add: valid_field_id_def sanitize_Some_iff)

lemma digit_char:
  assumes "0 \<le> n" "n < 10"
  shows "is_digit 10 (of_int (0x30 + n) :: code_unit) \<and> allowed_char (of_int (0x30 + n))"
proof -
  have "[0..9] = [0, 1, 2, 3, 4, 5, 6, 7, 8, 9 :: int]"
    by code_simp
  moreover have "n \<in> set [0..9]"
    using assms by simp
  ultimately have "n \<in> set [0, 1, 2, 3, 4, 5, 6, 7, 8, 9 :: int]"
    by simp
  then show ?thesis
    by (auto simp: is_digit_def digit_value_def allowed_char_def)
qed

lemma digits_props:
  "0 \<le> n \<Longrightarrow> digits n \<noteq> [] \<and> list_all (is_digit 10) (digits n) \<and> list_all allowed_char (digits n)"
proof (induction n rule: digits.induct)
  case (1 n)
  show ?case
  proof (cases "n < 10")
    case True
    then have e: "digits n = [of_int (0x30 + n)]"
      by (subst digits.simps) simp
    show ?thesis
      unfolding e using digit_char [of n] "1.prems" True by simp
  next
    case False
    then have "0 \<le> n div 10" by simp
    with "1.IH" False have ih: "digits (n div 10) \<noteq> []"
      "list_all (is_digit 10) (digits (n div 10))" "list_all allowed_char (digits (n div 10))"
      by simp_all
    have "0 \<le> n mod 10" "n mod 10 < 10" by simp_all
    then have d: "is_digit 10 (of_int (0x30 + n mod 10) :: code_unit)"
      "allowed_char (of_int (0x30 + n mod 10))"
      using digit_char [of "n mod 10"] by simp_all
    have e: "digits n = digits (n div 10) @ [of_int (0x30 + n mod 10)]"
      using False by (subst digits.simps) simp
    show ?thesis
      unfolding e using ih d by simp
  qed
qed

lemma int_to_string_allowed: "list_all allowed_char (int_to_string t)"
  using digits_props [of t] digits_props [of "- t"]
  by (simp add: int_to_string_def js_def allowed_char_def)

lemma path_join_uploads:
  "path_join (path_join d (js ''uploads'')) n = path_join d (js ''uploads/'' @ n)"
  by (simp add: path_join_def js_def)

lemma save_image_file:
  "save_image w st c buf = (f, st1) \<Longrightarrow>
     f = None \<or> f = Some (path_join (dirname w) (js ''uploads/'' @ image_file_name c (Date_now w)))"
  by (auto simp: save_image_def Let_def path_join_uploads split: option.splits if_splits)

lemma save_image_Some:
  "path_join (dirname w) (js ''uploads'') \<in> set (dirs st) \<or> \<not> mkdirSync_throws w \<Longrightarrow>
   fst (save_image w st c (Some buf))
     = Some (path_join (dirname w) (js ''uploads/'' @ image_file_name c (Date_now w)))"
  by (auto simp: save_image_def Let_def path_join_uploads)

lemma rx_exec_data_uri_groups:
  "rx_exec data_uri_regex 2 s = Some ms \<Longrightarrow> \<exists>a b c. ms = [Some a, Some b, Some c]"
  by (auto simp: rx_exec_data_uri data_uri_rxm split: if_splits)

lemma decode_string: "is_string v \<Longrightarrow> \<exists>buf. decodeBase64Image dec v = Some buf"
proof (cases v)
  case (JStr s)
  show ?thesis
  proof (cases "rx_exec data_uri_regex 2 s")
    case None
    then show ?thesis by (simp add: JStr decodeBase64Image_def)
  next
    case (Some ms)
    with rx_exec_data_uri_groups [OF Some] show ?thesis
      by (auto simp: JStr decodeBase64Image_def)
  qed
qed (simp_all add: is_string_def)

lemma not_digit_dot: "\<not> is_digit 10 (of_char CHR ''.'')"
  by (simp add: is_digit_def digit_value_def)

lemma relative_upload_path_digits:
  assumes "0 \<le> t"
  shows "relative_upload_path c (js ''uploads/'' @ image_file_name c t)"
proof -
  let ?pre = "js ''uploads/'' @ c @ js ''_''"
  have p: "js ''uploads/'' @ image_file_name c t = ?pre @ digits t @ js ''.jpg''"
    using assms by (simp add: image_file_name_def int_to_string_def)
  have d: "digits t \<noteq> []" "list_all (is_digit 10) (digits t)"
    using digits_props [OF assms] by simp_all
  have j: "js ''.jpg'' = of_char CHR ''.'' # js ''jpg''"
    by (simp add: js_def)
  have tw: "takeWhile (is_digit 10) (digits t @ js ''.jpg'') = digits t"
    using d(2) not_digit_dot by (simp add: takeWhile_append2 list_all_iff j)
  have dw: "dropWhile (is_digit 10) (digits t @ js ''.jpg'') = js ''.jpg''"
    using d(2) not_digit_dot by (simp add: dropWhile_append2 list_all_iff j)
  show ?thesis
    unfolding relative_upload_path_def p Let_def using d(1) by (simp add: tw dw)
qed

lemma save_image_files:
  "save_image w st c buf = (f, st1) \<Longrightarrow>
     files st1 = files st
     \<or> (\<exists>bs. buf = Some bs
            \<and> files st1 = files st @
                 [(path_join (path_join (dirname w) (js ''uploads''))
                     (image_file_name c (Date_now w)), bs)])"
  by (auto simp: save_image_def Let_def split: option.splits if_splits)


section \<open>The claims\<close>

text \<open>
  C1, as amended. For every request whose \<open>field_id\<close> is valid, whose \<open>image_base64\<close> is
  present and whose three sensor values are present, when each of the three coercions
  returns a number: if any of them is NaN, the handler returns HTTP 400 with kind
  NonNumericSensorValue and leaves the state as it was, so nothing is inserted; if none
  is NaN, the handler does not answer 400. The guard is \<open>Number.isNaN\<close>: an infinity
  passes it.
\<close>

theorem nan_sensor_rejected:
  assumes "valid_field_id (field_id b)" "\<not> nullish (image_base64 b)"
    and "\<not> nullish (soil_moisture b)" "\<not> nullish (temperature b)" "\<not> nullish (humidity b)"
    and "ToNumber (soil_moisture b) = Inr x" "ToNumber (temperature b) = Inr y"
      "ToNumber (humidity b) = Inr z"
  shows "(x = NaN \<or> y = NaN \<or> z = NaN \<longrightarrow>
            fst (handler w st b) = bad_request NonNumericSensorValue
            \<and> status (fst (handler w st b)) = 400
            \<and> snd (handler w st b) = st)
         \<and> (x \<noteq> NaN \<and> y \<noteq> NaN \<and> z \<noteq> NaN \<longrightarrow> status (fst (handler w st b)) \<noteq> 400)"
proof -
  from valid_sanitize [OF assms(1)] obtain c where c: "sanitizeCollectionName (field_id b) = Some c"
    by blast
  obtain f st1 where
    s: "save_image w st c (decodeBase64Image (Buffer_from_base64 w) (image_base64 b)) = (f, st1)"
    by (cases "save_image w st c (decodeBase64Image (Buffer_from_base64 w) (image_base64 b))")
  have "x = NaN \<or> y = NaN \<or> z = NaN \<Longrightarrow> handler w st b = (bad_request NonNumericSensorValue, st)"
    using handler_nan [OF c assms(2-8)] .
  moreover have "x \<noteq> NaN \<Longrightarrow> y \<noteq> NaN \<Longrightarrow> z \<noteq> NaN \<Longrightarrow> status (fst (handler w st b)) \<noteq> 400"
    using handler_persist [OF c assms(2-8) _ _ _ s]
    by (cases "insertOne w") (simp_all add: server_error_def)
  ultimately show ?thesis
    by (auto simp: status_bad_request)
qed

theorem nan_sensor_rejected_witness:
  "valid_field_id (field_id (example_body\<lparr>humidity := JStr (js ''wet'')\<rparr>))
   \<and> ToNumber (humidity (example_body\<lparr>humidity := JStr (js ''wet'')\<rparr>)) = Inr NaN
   \<and> fst (handler example_world empty_state (example_body\<lparr>humidity := JStr (js ''wet'')\<rparr>))
       = bad_request NonNumericSensorValue
   \<and> status (fst (handler example_world empty_state
                  (example_body\<lparr>humidity := JStr (js ''wet'')\<rparr>))) = 400
   \<and> snd (handler example_world empty_state (example_body\<lparr>humidity := JStr (js ''wet'')\<rparr>))
       = empty_state
   \<and> ToNumber (humidity example_body) = Inr (Fin 60)
   \<and> status (fst (handler example_world empty_state example_body)) \<noteq> 400"
proof -
  let ?b = "example_body\<lparr>humidity := JStr (js ''wet'')\<rparr>"
  have v: "valid_field_id (field_id ?b)" and v': "valid_field_id (field_id example_body)"
    by code_simp+
  have p: "\<not> nullish (image_base64 ?b)" "\<not> nullish (soil_moisture ?b)"
    "\<not> nullish (temperature ?b)" "\<not> nullish (humidity ?b)"
    by (simp_all add: example_body_def nullish_def)
  have p': "\<not> nullish (image_base64 example_body)" "\<not> nullish (soil_moisture example_body)"
    "\<not> nullish (temperature example_body)" "\<not> nullish (humidity example_body)"
    by (simp_all add: example_body_def nullish_def)
  have n: "ToNumber (soil_moisture ?b) = Inr (Fin (85 / 2))"
    "ToNumber (temperature ?b) = Inr (Fin 21)" "ToNumber (humidity ?b) = Inr NaN"
    by code_simp+
  have n': "ToNumber (soil_moisture example_body) = Inr (Fin (85 / 2))"
    "ToNumber (temperature example_body) = Inr (Fin 21)"
    "ToNumber (humidity example_body) = Inr (Fin 60)"
    by code_simp+
  show ?thesis
    using v n(3) n'(3) nan_sensor_rejected [OF v p n, of example_world empty_state]
      nan_sensor_rejected [OF v' p' n', of example_world empty_state]
    by (simp add: status_bad_request)
qed

text \<open>
  C1 as stated, for every non-finite result, fails: the text \<open>Infinity\<close> coerces to the
  positive infinity, the handler answers 200 and the reading is stored with it.
\<close>

theorem infinite_sensor_counterexample:
  "valid_field_id (field_id (example_body\<lparr>soil_moisture := JStr (js ''Infinity'')\<rparr>))
   \<and> \<not> nullish (image_base64 (example_body\<lparr>soil_moisture := JStr (js ''Infinity'')\<rparr>))
   \<and> \<not> nullish (soil_moisture (example_body\<lparr>soil_moisture := JStr (js ''Infinity'')\<rparr>))
   \<and> \<not> nullish (temperature (example_body\<lparr>soil_moisture := JStr (js ''Infinity'')\<rparr>))
   \<and> \<not> nullish (humidity (example_body\<lparr>soil_moisture := JStr (js ''Infinity'')\<rparr>))
   \<and> ToNumber (soil_moisture (example_body\<lparr>soil_moisture := JStr (js ''Infinity'')\<rparr>))
       = Inr PosInf
   \<and> non_finite PosInf
   \<and> status (fst (handler example_world empty_state
                  (example_body\<lparr>soil_moisture := JStr (js ''Infinity'')\<rparr>))) = 200
   \<and> map (doc_soil_moisture \<circ> snd \<circ> snd)
        (db (snd (handler example_world empty_state
                   (example_body\<lparr>soil_moisture := JStr (js ''Infinity'')\<rparr>)))) = [PosInf]"
  by code_simp

text \<open>
  C2. For every request, the handler accepts the \<open>field_id\<close> (it does not answer with
  the kind InvalidFieldId) if and only if the \<open>field_id\<close> is a string whose trimmed form
  is one to 100 characters drawn from ASCII letters, digits, underscore and hyphen, which
  is what \<open>^[A-Za-z0-9_-]{1,100}$\<close> matches (lemma \<open>field_id_regex_test\<close>); for every
  other value it returns HTTP 400 with kind InvalidFieldId.
\<close>

theorem field_id_validation:
  "(valid_field_id (field_id b) \<longrightarrow>
      json (fst (handler w st b)) \<noteq> Error (error_message InvalidFieldId))
   \<and> (\<not> valid_field_id (field_id b) \<longrightarrow>
      status (fst (handler w st b)) = 400
      \<and> json (fst (handler w st b)) = Error (error_message InvalidFieldId))"
proof (cases rule: handler_cases [of b w st])
  case invalid
  then show ?thesis
    by (simp add: sanitize_None_iff status_bad_request json_bad_request)
next
  case (no_image c)
  then show ?thesis
    using sanitize_None_iff [of "field_id b"]
    by (simp add: json_bad_request error_message_inj del: error_message.simps)
next
  case (no_sensor c)
  then show ?thesis
    using sanitize_None_iff [of "field_id b"]
    by (simp add: json_bad_request error_message_inj del: error_message.simps)
next
  case (throws c m)
  then show ?thesis
    using sanitize_None_iff [of "field_id b"] by (simp add: server_error_def)
next
  case (nan c x y z)
  then show ?thesis
    using sanitize_None_iff [of "field_id b"]
    by (simp add: json_bad_request error_message_inj del: error_message.simps)
next
  case (insert_fails c x y z f st1 m)
  then show ?thesis
    using sanitize_None_iff [of "field_id b"] by (simp add: server_error_def)
next
  case (inserted c x y z f st1 i)
  then show ?thesis
    using sanitize_None_iff [of "field_id b"] by simp
qed

theorem field_id_validation_witness:
  "valid_field_id (field_id example_body)
   \<and> json (fst (handler example_world empty_state example_body))
        \<noteq> Error (error_message InvalidFieldId)
   \<and> \<not> valid_field_id (field_id (example_body\<lparr>field_id := JStr (js ''bad id!'')\<rparr>))
   \<and> status (fst (handler example_world empty_state
                  (example_body\<lparr>field_id := JStr (js ''bad id!'')\<rparr>))) = 400
   \<and> json (fst (handler example_world empty_state
                  (example_body\<lparr>field_id := JStr (js ''bad id!'')\<rparr>)))
        = Error (error_message InvalidFieldId)"
proof -
  have good: "valid_field_id (field_id example_body)"
    by code_simp
  have bad: "\<not> valid_field_id (field_id (example_body\<lparr>field_id := JStr (js ''bad id!'')\<rparr>))"
    by code_simp
  show ?thesis
    using good bad field_id_validation [of example_body example_world empty_state]
      field_id_validation [of "example_body\<lparr>field_id := JStr (js ''bad id!'')\<rparr>"
        example_world empty_state]
    by blast
qed




text \<open>
  C4. For every request that fails a validation check (an invalid \<open>field_id\<close>, a missing
  \<open>image_base64\<close>, a missing sensor value, or sensor values that coerce with a NaN among
  them) the handler responds HTTP 400 with one of the four kinds and the state is the
  one it started from: no document is inserted, no file is written and no directory is
  created. Every 400 is one of these four failures and changes nothing.
\<close>

theorem validation_failure_changes_nothing:
  "(\<not> valid_field_id (field_id b)
      \<or> nullish (image_base64 b)
      \<or> nullish (soil_moisture b) \<or> nullish (temperature b) \<or> nullish (humidity b)
      \<or> (ToNumber (soil_moisture b) = Inr x \<and> ToNumber (temperature b) = Inr y
           \<and> ToNumber (humidity b) = Inr z \<and> (x = NaN \<or> y = NaN \<or> z = NaN)) \<longrightarrow>
      status (fst (handler w st b)) = 400
      \<and> (\<exists>k. fst (handler w st b) = bad_request k)
      \<and> snd (handler w st b) = st)
   \<and> (status (fst (handler w st b)) = 400 \<longrightarrow>
      (\<exists>k. fst (handler w st b) = bad_request k) \<and> snd (handler w st b) = st)"
proof (cases rule: handler_cases [of b w st])
  case invalid
  then show ?thesis by (auto simp: status_bad_request)
next
  case (no_image c)
  then show ?thesis by (auto simp: status_bad_request)
next
  case (no_sensor c)
  then show ?thesis by (auto simp: status_bad_request)
next
  case (throws c m)
  then show ?thesis
    using sanitize_None_iff [of "field_id b"] by (auto simp: server_error_def)
next
  case (nan c x' y' z')
  then show ?thesis by (auto simp: status_bad_request)
next
  case (insert_fails c x' y' z' f st1 m)
  then show ?thesis
    using sanitize_None_iff [of "field_id b"] by (auto simp: server_error_def)
next
  case (inserted c x' y' z' f st1 i)
  then show ?thesis
    using sanitize_None_iff [of "field_id b"] by auto
qed

theorem validation_failure_changes_nothing_witness:
  "\<not> valid_field_id (field_id (example_body\<lparr>field_id := JNum (Fin 7)\<rparr>))
   \<and> handler example_world empty_state (example_body\<lparr>field_id := JNum (Fin 7)\<rparr>)
       = (bad_request InvalidFieldId, empty_state)
   \<and> nullish (image_base64 (example_body\<lparr>image_base64 := JNull\<rparr>))
   \<and> handler example_world empty_state (example_body\<lparr>image_base64 := JNull\<rparr>)
       = (bad_request MissingImage, empty_state)
   \<and> nullish (temperature (example_body\<lparr>temperature := JUndefined\<rparr>))
   \<and> handler example_world empty_state (example_body\<lparr>temperature := JUndefined\<rparr>)
       = (bad_request MissingSensorValue, empty_state)
   \<and> ToNumber (humidity (example_body\<lparr>humidity := JStr (js ''wet'')\<rparr>)) = Inr NaN
   \<and> handler example_world empty_state (example_body\<lparr>humidity := JStr (js ''wet'')\<rparr>)
       = (bad_request NonNumericSensorValue, empty_state)
   \<and> status (bad_request InvalidFieldId) = 400 \<and> status (bad_request MissingImage) = 400
   \<and> status (bad_request MissingSensorValue) = 400
   \<and> status (bad_request NonNumericSensorValue) = 400"
proof -
  let ?b1 = "example_body\<lparr>field_id := JNum (Fin 7)\<rparr>"
  let ?b2 = "example_body\<lparr>image_base64 := JNull\<rparr>"
  let ?b3 = "example_body\<lparr>temperature := JUndefined\<rparr>"
  let ?b4 = "example_body\<lparr>humidity := JStr (js ''wet'')\<rparr>"
  have a1: "\<not> valid_field_id (field_id ?b1)"
    by (simp add: valid_field_id_def)
  have a2: "nullish (image_base64 ?b2)" and a3: "nullish (temperature ?b3)"
    by (simp_all add: nullish_def)
  have a4: "ToNumber (soil_moisture ?b4) = Inr (Fin (85 / 2))
            \<and> ToNumber (temperature ?b4) = Inr (Fin 21) \<and> ToNumber (humidity ?b4) = Inr NaN"
    by code_simp
  have k1: "fst (handler example_world empty_state ?b1) = bad_request InvalidFieldId"
    and k2: "fst (handler example_world empty_state ?b2) = bad_request MissingImage"
    and k3: "fst (handler example_world empty_state ?b3) = bad_request MissingSensorValue"
    and k4: "fst (handler example_world empty_state ?b4) = bad_request NonNumericSensorValue"
    by code_simp+
  have r1: "status (fst (handler example_world empty_state ?b1)) = 400
            \<and> snd (handler example_world empty_state ?b1) = empty_state"
    using a1 validation_failure_changes_nothing
      [where b = ?b1 and w = example_world and st = empty_state, THEN conjunct1]
    by blast
  have r2: "status (fst (handler example_world empty_state ?b2)) = 400
            \<and> snd (handler example_world empty_state ?b2) = empty_state"
    using a2 validation_failure_changes_nothing
      [where b = ?b2 and w = example_world and st = empty_state, THEN conjunct1]
    by blast
  have r3: "status (fst (handler example_world empty_state ?b3)) = 400
            \<and> snd (handler example_world empty_state ?b3) = empty_state"
    using a3 validation_failure_changes_nothing
      [where b = ?b3 and w = example_world and st = empty_state, THEN conjunct1]
    by blast
  have r4: "status (fst (handler example_world empty_state ?b4)) = 400
            \<and> snd (handler example_world empty_state ?b4) = empty_state"
    using a4 validation_failure_changes_nothing
      [where b = ?b4 and w = example_world and st = empty_state
        and x = "Fin (85 / 2)" and y = "Fin 21" and z = NaN, THEN conjunct1]
    by blast
  have p: "\<And>h r s. fst h = r \<Longrightarrow> snd h = s \<Longrightarrow> h = (r, s)"
    by auto
  show ?thesis
    using a1 a2 a3 a4 p [OF k1 conjunct2 [OF r1]] p [OF k2 conjunct2 [OF r2]]
      p [OF k3 conjunct2 [OF r3]] p [OF k4 conjunct2 [OF r4]]
      conjunct1 [OF r1] conjunct1 [OF r2] conjunct1 [OF r3] conjunct1 [OF r4]
      k1 k2 k3 k4
    by (simp only: simp_thms)
qed

text \<open>
  C5. The four validation checks run in a fixed order and the first failure wins: an
  invalid \<open>field_id\<close> gives InvalidFieldId whatever the other fields are; with a valid
  \<open>field_id\<close>, a missing \<open>image_base64\<close> gives MissingImage whatever the sensor values
  are; with both in order, a missing sensor value gives MissingSensorValue whatever the
  others coerce to; and only when all are present does a NaN give
  NonNumericSensorValue.
\<close>

theorem validation_order:
  "(\<not> valid_field_id (field_id b) \<longrightarrow> fst (handler w st b) = bad_request InvalidFieldId)
   \<and> (valid_field_id (field_id b) \<and> nullish (image_base64 b) \<longrightarrow>
        fst (handler w st b) = bad_request MissingImage)
   \<and> (valid_field_id (field_id b) \<and> \<not> nullish (image_base64 b)
        \<and> (nullish (soil_moisture b) \<or> nullish (temperature b) \<or> nullish (humidity b)) \<longrightarrow>
        fst (handler w st b) = bad_request MissingSensorValue)
   \<and> (valid_field_id (field_id b) \<and> \<not> nullish (image_base64 b)
        \<and> \<not> nullish (soil_moisture b) \<and> \<not> nullish (temperature b) \<and> \<not> nullish (humidity b)
        \<and> ToNumber (soil_moisture b) = Inr x \<and> ToNumber (temperature b) = Inr y
        \<and> ToNumber (humidity b) = Inr z \<and> (x = NaN \<or> y = NaN \<or> z = NaN) \<longrightarrow>
        fst (handler w st b) = bad_request NonNumericSensorValue)"
proof (cases "sanitizeCollectionName (field_id b)")
  case None
  then show ?thesis
    using handler_invalid [of b w st] by (simp add: sanitize_None_iff)
next
  case (Some c)
  then have v: "valid_field_id (field_id b)"
    using sanitize_None_iff [of "field_id b"] by simp
  show ?thesis
    using v handler_missing_image [OF Some, of w st] handler_missing_sensor [OF Some, of w st]
      handler_nan [OF Some, of x y z w st]
    by auto
qed

theorem validation_order_witness:
  "\<not> valid_field_id (field_id (example_body\<lparr>field_id := JStr (js ''bad id!''), image_base64 := JUndefined\<rparr>))
   \<and> fst (handler example_world empty_state
            (example_body\<lparr>field_id := JStr (js ''bad id!''), image_base64 := JUndefined\<rparr>))
       = bad_request InvalidFieldId
   \<and> nullish (image_base64 (example_body\<lparr>image_base64 := JNull, humidity := JUndefined\<rparr>))
   \<and> fst (handler example_world empty_state
            (example_body\<lparr>image_base64 := JNull, humidity := JUndefined\<rparr>))
       = bad_request MissingImage
   \<and> nullish (humidity (example_body\<lparr>humidity := JNull, temperature := JStr (js ''hot'')\<rparr>))
   \<and> fst (handler example_world empty_state
            (example_body\<lparr>humidity := JNull, temperature := JStr (js ''hot'')\<rparr>))
       = bad_request MissingSensorValue
   \<and> ToNumber (temperature (example_body\<lparr>temperature := JStr (js ''hot'')\<rparr>)) = Inr NaN
   \<and> fst (handler example_world empty_state (example_body\<lparr>temperature := JStr (js ''hot'')\<rparr>))
       = bad_request NonNumericSensorValue"
proof -
  let ?b1 = "example_body\<lparr>field_id := JStr (js ''bad id!''), image_base64 := JUndefined\<rparr>"
  let ?b2 = "example_body\<lparr>image_base64 := JNull, humidity := JUndefined\<rparr>"
  let ?b3 = "example_body\<lparr>humidity := JNull, temperature := JStr (js ''hot'')\<rparr>"
  let ?b4 = "example_body\<lparr>temperature := JStr (js ''hot'')\<rparr>"
  have v: "valid_field_id (JStr (js ''Field_01''))"
    by code_simp
  have a1: "\<not> valid_field_id (field_id ?b1)"
    by code_simp
  have a2: "valid_field_id (field_id ?b2) \<and> nullish (image_base64 ?b2)"
    using v by (simp add: example_body_def nullish_def)
  have a3: "valid_field_id (field_id ?b3) \<and> \<not> nullish (image_base64 ?b3)
            \<and> nullish (humidity ?b3)"
    using v by (simp add: example_body_def nullish_def)
  have n: "ToNumber (soil_moisture ?b4) = Inr (Fin (85 / 2))
           \<and> ToNumber (temperature ?b4) = Inr NaN \<and> ToNumber (humidity ?b4) = Inr (Fin 60)"
    by code_simp
  have a4: "valid_field_id (field_id ?b4) \<and> \<not> nullish (image_base64 ?b4)
            \<and> \<not> nullish (soil_moisture ?b4) \<and> \<not> nullish (temperature ?b4)
            \<and> \<not> nullish (humidity ?b4)"
    using v by (simp add: example_body_def nullish_def)
  have r1: "fst (handler example_world empty_state ?b1) = bad_request InvalidFieldId"
    using a1 validation_order [where b = ?b1 and w = example_world and st = empty_state,
        THEN conjunct1]
    by (rule rev_mp)
  have r2: "fst (handler example_world empty_state ?b2) = bad_request MissingImage"
    using a2 validation_order [where b = ?b2 and w = example_world and st = empty_state,
        THEN conjunct2, THEN conjunct1]
    by (rule rev_mp)
  have r3: "fst (handler example_world empty_state ?b3) = bad_request MissingSensorValue"
    using a3 validation_order [where b = ?b3 and w = example_world and st = empty_state,
        THEN conjunct2, THEN conjunct2, THEN conjunct1]
    by blast
  have r4: "fst (handler example_world empty_state ?b4) = bad_request NonNumericSensorValue"
    using a4 n validation_order [where b = ?b4 and w = example_world and st = empty_state
        and x = "Fin (85 / 2)" and y = NaN and z = "Fin 60",
        THEN conjunct2, THEN conjunct2, THEN conjunct2]
    by blast
  show ?thesis
    using a1 a2 a3 n r1 r2 r3 r4 by (intro conjI) (simp_all only: simp_thms)
qed

text \<open>
  C6. For every request that is answered 200, one document is appended to the store,
  in the configured database and the collection of the trimmed \<open>field_id\<close>; its
  \<open>soil_moisture\<close>, \<open>temperature\<close> and \<open>humidity\<close> are the numeric coercions of the
  input values, its \<open>field_id\<close> is the trimmed input \<open>field_id\<close>, and its \<open>image_base64\<close>
  is the input value as it came.
\<close>

theorem stored_document_round_trip:
  assumes "status (fst (handler w st b)) = 200"
  shows "\<exists>s x y z f.
           field_id b = JStr s
           \<and> sanitizeCollectionName (field_id b) = Some (trim s)
           \<and> ToNumber (soil_moisture b) = Inr x
           \<and> ToNumber (temperature b) = Inr y
           \<and> ToNumber (humidity b) = Inr z
           \<and> db (snd (handler w st b)) =
               db st @ [(DATABASE_NAME w, trim s,
                         \<lparr>doc_field_id = trim s, doc_soil_moisture = x, doc_temperature = y,
                          doc_humidity = z, doc_image_base64 = image_base64 b,
                          doc_saved_file = f, doc_created_at = new_Date w\<rparr>)]"
proof (cases rule: handler_cases [of b w st])
  case (inserted c x y z f st1 i)
  from inserted(1) obtain s where s: "field_id b = JStr s" "c = trim s"
    by (auto simp: sanitize_Some_iff)
  show ?thesis
    using inserted s save_image_db [OF inserted(12)] by simp
qed (use assms in \<open>simp_all add: status_bad_request server_error_def\<close>)

theorem stored_document_round_trip_witness:
  "status (fst (handler example_world empty_state
                 (example_body\<lparr>field_id := JStr (js '' Field_01 '')\<rparr>))) = 200
   \<and> db (snd (handler example_world empty_state
                 (example_body\<lparr>field_id := JStr (js '' Field_01 '')\<rparr>))) =
       [(js ''AgriVision_IoT'', js ''Field_01'',
         \<lparr>doc_field_id = js ''Field_01'', doc_soil_moisture = Fin (85 / 2),
          doc_temperature = Fin 21, doc_humidity = Fin 60,
          doc_image_base64 = JStr (js ''QQ==''),
          doc_saved_file = Some (js ''/srv/app/uploads/Field_01_1700000000000.jpg''),
          doc_created_at = 1700000000001\<rparr>)]
   \<and> (\<exists>s x y z f.
         field_id (example_body\<lparr>field_id := JStr (js '' Field_01 '')\<rparr>) = JStr s
         \<and> sanitizeCollectionName (field_id (example_body\<lparr>field_id := JStr (js '' Field_01 '')\<rparr>))
             = Some (trim s)
         \<and> ToNumber (soil_moisture (example_body\<lparr>field_id := JStr (js '' Field_01 '')\<rparr>)) = Inr x
         \<and> ToNumber (temperature (example_body\<lparr>field_id := JStr (js '' Field_01 '')\<rparr>)) = Inr y
         \<and> ToNumber (humidity (example_body\<lparr>field_id := JStr (js '' Field_01 '')\<rparr>)) = Inr z
         \<and> db (snd (handler example_world empty_state
                      (example_body\<lparr>field_id := JStr (js '' Field_01 '')\<rparr>))) =
             db empty_state @
               [(DATABASE_NAME example_world, trim s,
                 \<lparr>doc_field_id = trim s, doc_soil_moisture = x, doc_temperature = y,
                  doc_humidity = z,
                  doc_image_base64 = image_base64 (example_body\<lparr>field_id := JStr (js '' Field_01 '')\<rparr>),
                  doc_saved_file = f, doc_created_at = new_Date example_world\<rparr>)])"
proof -
  let ?b = "example_body\<lparr>field_id := JStr (js '' Field_01 '')\<rparr>"
  have ok: "status (fst (handler example_world empty_state ?b)) = 200"
    by code_simp
  have d: "db (snd (handler example_world empty_state ?b)) =
       [(js ''AgriVision_IoT'', js ''Field_01'',
         \<lparr>doc_field_id = js ''Field_01'', doc_soil_moisture = Fin (85 / 2),
          doc_temperature = Fin 21, doc_humidity = Fin 60,
          doc_image_base64 = JStr (js ''QQ==''),
          doc_saved_file = Some (js ''/srv/app/uploads/Field_01_1700000000000.jpg''),
          doc_created_at = 1700000000001\<rparr>)]"
    by code_simp
  show ?thesis
    using ok d stored_document_round_trip [OF ok] by blast
qed

text \<open>
  C7, as amended. For every image value \<open>data:<mime-type>;base64,<payload>\<close> whose
  \<open><mime-type>\<close> is a non-empty run of ASCII letters, \<open>-\<close>, \<open>+\<close> and \<open>/\<close> and whose
  \<open><payload>\<close> is non-empty and holds no line terminator, the decoder strips the prefix
  and the buffer is the decoding of \<open><payload>\<close> alone, whatever decoder \<open>Buffer.from\<close>
  is; in particular \<open>data:image/jpeg;base64,QQ==\<close> decodes to the bytes of \<open>QQ==\<close>.
\<close>

theorem data_uri_prefix_stripped:
  assumes "mime \<noteq> []" "list_all mime_char mime"
    and "payload \<noteq> []" "list_all (\<lambda>c. \<not> is_line_terminator c) payload"
  shows "decodeBase64Image dec (JStr (js ''data:'' @ mime @ js '';base64,'' @ payload))
           = Some (dec payload)"
  using data_uri_match [of mime payload] assms
  by (simp add: decodeBase64Image_def in_mime_class [abs_def])

theorem data_uri_prefix_stripped_witness:
  "js ''image/jpeg'' \<noteq> [] \<and> list_all mime_char (js ''image/jpeg'')
   \<and> js ''QQ=='' \<noteq> [] \<and> list_all (\<lambda>c. \<not> is_line_terminator c) (js ''QQ=='')
   \<and> decodeBase64Image node_base64_decode (JStr (js ''data:image/jpeg;base64,QQ==''))
       = Some (node_base64_decode (js ''QQ==''))
   \<and> decodeBase64Image node_base64_decode (JStr (js ''QQ=='')) = Some (node_base64_decode (js ''QQ==''))
   \<and> node_base64_decode (js ''QQ=='') = [0x41]"
proof -
  have a: "js ''image/jpeg'' \<noteq> []" "list_all mime_char (js ''image/jpeg'')"
    "js ''QQ=='' \<noteq> []" "list_all (\<lambda>c. \<not> is_line_terminator c) (js ''QQ=='')"
    by code_simp+
  have e: "js ''data:image/jpeg;base64,QQ=='' = js ''data:'' @ js ''image/jpeg'' @ js '';base64,'' @ js ''QQ==''"
    by (simp add: js_def)
  have p: "decodeBase64Image node_base64_decode (JStr (js ''QQ==''))
             = Some (node_base64_decode (js ''QQ==''))"
    by code_simp
  have v: "node_base64_decode (js ''QQ=='') = [0x41]"
    by code_simp
  show ?thesis
    using a p v data_uri_prefix_stripped [OF a, of node_base64_decode]
    unfolding e by simp
qed

text \<open>
  C7 as stated, for every media type, fails: \<open>video/mp4\<close> holds a digit, the pattern does
  not match, and the whole text, prefix included, is decoded.
\<close>

theorem data_uri_other_mime_counterexample:
  "decodeBase64Image node_base64_decode (JStr (js ''data:video/mp4;base64,QQ==''))
     = Some [117, 171, 90, 190, 39, 94, 163, 249, 169, 225, 182, 172, 123, 174, 16]
   \<and> node_base64_decode (js ''QQ=='') = [65]
   \<and> decodeBase64Image node_base64_decode (JStr (js ''data:video/mp4;base64,QQ==''))
       \<noteq> Some (node_base64_decode (js ''QQ==''))"
  by code_simp

text \<open>
  C8, as amended. A successful request whose image is a string, served while the
  uploads directory exists or can be created and the clock is not before the epoch,
  returns HTTP 200 whose \<open>saved_file\<close> is \<open>__dirname\<close> joined with
  \<open>uploads/<name>_<digits>.jpg\<close>, where \<open><name>\<close> is the sanitized \<open>field_id\<close> and
  \<open><digits>\<close> the millisecond timestamp: a path under the directory of \<open>server.js\<close>,
  absolute, whose tail has the pattern. For \<open>Field_01\<close> that is
  \<open><__dirname>/uploads/Field_01_<digits>.jpg\<close>.
\<close>

theorem saved_file_path:
  assumes "json (fst (handler w st b)) = Success i c f"
    and "is_string (image_base64 b)"
    and "path_join (dirname w) (js ''uploads'') \<in> set (dirs st) \<or> \<not> mkdirSync_throws w"
    and "0 \<le> Date_now w"
  shows "status (fst (handler w st b)) = 200
         \<and> sanitizeCollectionName (field_id b) = Some c
         \<and> f = Some (path_join (dirname w) (js ''uploads/'' @ image_file_name c (Date_now w)))
         \<and> relative_upload_path c (js ''uploads/'' @ image_file_name c (Date_now w))"
proof (cases rule: handler_cases [of b w st])
  case (inserted c' x y z f' st1 i')
  then have e: "c' = c" "f' = f" using assms(1) by simp_all
  from decode_string [OF assms(2)] obtain buf where
    "decodeBase64Image (Buffer_from_base64 w) (image_base64 b) = Some buf" by blast
  then have "f = Some (path_join (dirname w) (js ''uploads/'' @ image_file_name c (Date_now w)))"
    using save_image_Some [OF assms(3), of c buf] inserted(12) e by simp
  then show ?thesis
    using inserted e relative_upload_path_digits [OF assms(4)] by simp
qed (use assms(1) in \<open>simp_all add: json_bad_request server_error_def\<close>)

theorem saved_file_path_witness:
  "json (fst (handler example_world empty_state example_body))
     = Success (js ''65a1b2c3d4e5f60718293a4b'') (js ''Field_01'')
         (Some (js ''/srv/app/uploads/Field_01_1700000000000.jpg''))
   \<and> is_string (image_base64 example_body)
   \<and> \<not> mkdirSync_throws example_world
   \<and> 0 \<le> Date_now example_world
   \<and> Some (js ''/srv/app/uploads/Field_01_1700000000000.jpg'')
       = Some (path_join (dirname example_world)
                 (js ''uploads/'' @ image_file_name (js ''Field_01'') (Date_now example_world)))
   \<and> relative_upload_path (js ''Field_01'')
        (js ''uploads/'' @ image_file_name (js ''Field_01'') (Date_now example_world))"
proof -
  have a: "json (fst (handler example_world empty_state example_body))
     = Success (js ''65a1b2c3d4e5f60718293a4b'') (js ''Field_01'')
         (Some (js ''/srv/app/uploads/Field_01_1700000000000.jpg''))"
    by code_simp
  have s: "is_string (image_base64 example_body)"
    by (simp add: example_body_def is_string_def)
  have m: "\<not> mkdirSync_throws example_world" and t: "0 \<le> Date_now example_world"
    by (simp_all add: example_world_def)
  have m': "path_join (dirname example_world) (js ''uploads'') \<in> set (dirs empty_state)
            \<or> \<not> mkdirSync_throws example_world"
    using m by simp
  show ?thesis
    using a s m t saved_file_path [OF a s m' t] by simp
qed

text \<open>
  C8 as stated fails: the value returned is not a path \<open>uploads/Field_01_<digits>.jpg\<close>
  relative to the working directory, it starts with \<open>__dirname\<close>.
\<close>

theorem saved_file_absolute_counterexample:
  "fst (handler example_world empty_state example_body)
     = \<lparr>status = 200,
        json = Success (js ''65a1b2c3d4e5f60718293a4b'') (js ''Field_01'')
                 (Some (js ''/srv/app/uploads/Field_01_1700000000000.jpg''))\<rparr>
   \<and> \<not> relative_upload_path (js ''Field_01'') (js ''/srv/app/uploads/Field_01_1700000000000.jpg'')"
  by code_simp

text \<open>
  C9. The \<open>database_name\<close> of the body does not influence the handler: two requests
  that differ only in it get the same response and leave the same state, and a
  document, when one is inserted, goes to the database of the configuration.
\<close>

theorem database_name_ignored:
  "handler w st (b\<lparr>database_name := v\<rparr>) = handler w st b
   \<and> (db (snd (handler w st b)) = db st
       \<or> (\<exists>c d. db (snd (handler w st b)) = db st @ [(DATABASE_NAME w, c, d)]))"
proof
  show "handler w st (b\<lparr>database_name := v\<rparr>) = handler w st b"
    by (simp add: handler_def cong: option.case_cong if_cong sum.case_cong exception.case_cong)
  show "db (snd (handler w st b)) = db st
       \<or> (\<exists>c d. db (snd (handler w st b)) = db st @ [(DATABASE_NAME w, c, d)])"
  proof (cases rule: handler_cases [of b w st])
    case (insert_fails c x y z f st1 m)
    then show ?thesis using save_image_db [OF insert_fails(12)] by simp
  next
    case (inserted c x y z f st1 i)
    then show ?thesis using save_image_db [OF inserted(12)] by simp
  qed simp_all
qed

theorem database_name_ignored_witness:
  "handler example_world empty_state (example_body\<lparr>database_name := JStr (js ''admin'')\<rparr>)
     = handler example_world empty_state example_body
   \<and> map fst (db (snd (handler example_world empty_state
                          (example_body\<lparr>database_name := JStr (js ''admin'')\<rparr>))))
       = [js ''AgriVision_IoT'']"
proof -
  have "map fst (db (snd (handler example_world empty_state example_body)))
          = [js ''AgriVision_IoT'']"
    by code_simp
  then show ?thesis
    using database_name_ignored [where w = example_world and st = empty_state
        and b = example_body and v = "JStr (js ''admin'')"]
    by simp
qed

text \<open>
  C10, as amended. For every input, \<open>sanitizeCollectionName\<close> returns either null or a
  non-empty string of at most 100 characters drawn only from ASCII letters, digits,
  underscore and hyphen. Consequently, for every request, whether or not the insert
  then succeeds: a file it writes is the uploads directory joined with the generated
  file name, a document it inserts goes to the collection of the sanitized name, and a
  200 reports that name and that path. The generated file name is a string of
  allow-list characters (the name, an underscore, the decimal timestamp) followed by
  the fixed suffix \<open>.jpg\<close>: it holds no path separator, and no dot or other character
  outside the allow-list except in that suffix.
\<close>

theorem sanitized_name_allow_list:
  "(sanitizeCollectionName v = None
      \<or> (\<exists>n. sanitizeCollectionName v = Some n \<and> n \<noteq> [] \<and> length n \<le> 100
             \<and> list_all allowed_char n))
   \<and> (sanitizeCollectionName (field_id b) = Some c \<longrightarrow>
        list_all allowed_char c
        \<and> image_file_name c t = (c @ js ''_'' @ int_to_string t) @ js ''.jpg''
        \<and> list_all allowed_char (c @ js ''_'' @ int_to_string t))
   \<and> (files (snd (handler w st b)) = files st
        \<or> (\<exists>n buf. sanitizeCollectionName (field_id b) = Some n
              \<and> files (snd (handler w st b)) =
                  files st @ [(path_join (path_join (dirname w) (js ''uploads''))
                                 (image_file_name n (Date_now w)), buf)]))
   \<and> (db (snd (handler w st b)) = db st
        \<or> (\<exists>n d. sanitizeCollectionName (field_id b) = Some n
              \<and> db (snd (handler w st b)) = db st @ [(DATABASE_NAME w, n, d)]))
   \<and> (json (fst (handler w st b)) = Success i c' f \<longrightarrow>
        sanitizeCollectionName (field_id b) = Some c'
        \<and> (f = None
            \<or> f = Some (path_join (path_join (dirname w) (js ''uploads''))
                          (image_file_name c' (Date_now w)))))"
proof (intro conjI impI)
  show "sanitizeCollectionName v = None
      \<or> (\<exists>n. sanitizeCollectionName v = Some n \<and> n \<noteq> [] \<and> length n \<le> 100
             \<and> list_all allowed_char n)"
    by (cases "sanitizeCollectionName v")
      (auto simp: sanitize_Some_iff well_formed_name_def)
next
  assume c: "sanitizeCollectionName (field_id b) = Some c"
  show a: "list_all allowed_char c"
    using c by (auto simp: sanitize_Some_iff well_formed_name_def)
  show "image_file_name c t = (c @ js ''_'' @ int_to_string t) @ js ''.jpg''"
    by (simp add: image_file_name_def)
  have "allowed_char (of_char CHR ''_'')"
    by (simp add: allowed_char_def)
  then show "list_all allowed_char (c @ js ''_'' @ int_to_string t)"
    using a int_to_string_allowed [of t] by (simp add: js_def)
next
  show "files (snd (handler w st b)) = files st
        \<or> (\<exists>n buf. sanitizeCollectionName (field_id b) = Some n
              \<and> files (snd (handler w st b)) =
                  files st @ [(path_join (path_join (dirname w) (js ''uploads''))
                                 (image_file_name n (Date_now w)), buf)])"
  proof (cases rule: handler_cases [of b w st])
    case (insert_fails c x y z f st1 m)
    then show ?thesis using save_image_files [OF insert_fails(12)] by auto
  next
    case (inserted c x y z f st1 i)
    then show ?thesis using save_image_files [OF inserted(12)] by auto
  qed simp_all
next
  show "db (snd (handler w st b)) = db st
        \<or> (\<exists>n d. sanitizeCollectionName (field_id b) = Some n
              \<and> db (snd (handler w st b)) = db st @ [(DATABASE_NAME w, n, d)])"
  proof (cases rule: handler_cases [of b w st])
    case (insert_fails c x y z f st1 m)
    then show ?thesis using save_image_db [OF insert_fails(12)] by simp
  next
    case (inserted c x y z f st1 i)
    then show ?thesis using save_image_db [OF inserted(12)] by simp
  qed simp_all
next
  assume a: "json (fst (handler w st b)) = Success i c' f"
  show "sanitizeCollectionName (field_id b) = Some c'"
  proof (cases rule: handler_cases [of b w st])
    case (inserted c x y z f' st1 i')
    then show ?thesis using a by simp
  qed (use a in \<open>simp_all add: json_bad_request server_error_def\<close>)
  show "f = None
            \<or> f = Some (path_join (path_join (dirname w) (js ''uploads''))
                          (image_file_name c' (Date_now w)))"
  proof (cases rule: handler_cases [of b w st])
    case (inserted c x y z f' st1 i')
    then have e: "c = c'" "f' = f" using a by simp_all
    show ?thesis
      using save_image_file [OF inserted(12)] e by (simp only: path_join_uploads)
  qed (use a in \<open>simp_all add: json_bad_request server_error_def\<close>)
qed

theorem sanitized_name_allow_list_witness:
  "sanitizeCollectionName (field_id example_body) = Some (js ''Field_01'')
   \<and> list_all allowed_char (js ''Field_01'')
   \<and> image_file_name (js ''Field_01'') (Date_now example_world)
       = (js ''Field_01'' @ js ''_'' @ int_to_string (Date_now example_world)) @ js ''.jpg''
   \<and> list_all allowed_char (js ''Field_01'' @ js ''_'' @ int_to_string (Date_now example_world))
   \<and> json (fst (handler example_world empty_state example_body))
       = Success (js ''65a1b2c3d4e5f60718293a4b'') (js ''Field_01'')
           (Some (js ''/srv/app/uploads/Field_01_1700000000000.jpg''))
   \<and> Some (js ''/srv/app/uploads/Field_01_1700000000000.jpg'')
       = Some (path_join (path_join (dirname example_world) (js ''uploads''))
                 (image_file_name (js ''Field_01'') (Date_now example_world)))
   \<and> fst (handler (example_world\<lparr>insertOne := Inl (js ''connection closed'')\<rparr>)
            empty_state example_body)
       = server_error (js ''connection closed'')
   \<and> files (snd (handler (example_world\<lparr>insertOne := Inl (js ''connection closed'')\<rparr>)
                    empty_state example_body))
       = [(js ''/srv/app/uploads/Field_01_1700000000000.jpg'', [65])]
   \<and> (\<exists>n buf. sanitizeCollectionName (field_id example_body) = Some n
         \<and> files (snd (handler (example_world\<lparr>insertOne := Inl (js ''connection closed'')\<rparr>)
                          empty_state example_body)) =
             files empty_state @
               [(path_join
                   (path_join (dirname (example_world\<lparr>insertOne := Inl (js ''connection closed'')\<rparr>))
                      (js ''uploads''))
                   (image_file_name n
                      (Date_now (example_world\<lparr>insertOne := Inl (js ''connection closed'')\<rparr>))),
                 buf)])"
proof -
  let ?w = "example_world\<lparr>insertOne := Inl (js ''connection closed'')\<rparr>"
  have c: "sanitizeCollectionName (field_id example_body) = Some (js ''Field_01'')"
    by code_simp
  have a: "json (fst (handler example_world empty_state example_body))
       = Success (js ''65a1b2c3d4e5f60718293a4b'') (js ''Field_01'')
           (Some (js ''/srv/app/uploads/Field_01_1700000000000.jpg''))"
    by code_simp
  have e: "fst (handler ?w empty_state example_body) = server_error (js ''connection closed'')"
    by code_simp
  have g: "files (snd (handler ?w empty_state example_body))
       = [(js ''/srv/app/uploads/Field_01_1700000000000.jpg'', [65])]"
    by code_simp
  have ne: "files (snd (handler ?w empty_state example_body)) \<noteq> files empty_state"
  proof -
    have "files empty_state = []" by (simp add: empty_state_def)
    then show ?thesis unfolding g by simp
  qed
  note t1 = sanitized_name_allow_list [where w = example_world and st = empty_state
        and b = example_body and c = "js ''Field_01''" and t = "Date_now example_world"
        and i = "js ''65a1b2c3d4e5f60718293a4b''" and c' = "js ''Field_01''"
        and f = "Some (js ''/srv/app/uploads/Field_01_1700000000000.jpg'')"]
  note t2 = sanitized_name_allow_list [where w = ?w and st = empty_state and b = example_body]
  have r1: "list_all allowed_char (js ''Field_01'')
        \<and> image_file_name (js ''Field_01'') (Date_now example_world)
            = (js ''Field_01'' @ js ''_'' @ int_to_string (Date_now example_world)) @ js ''.jpg''
        \<and> list_all allowed_char (js ''Field_01'' @ js ''_'' @ int_to_string (Date_now example_world))"
    using c t1 [THEN conjunct2, THEN conjunct1] by (rule rev_mp)
  have r2: "Some (js ''/srv/app/uploads/Field_01_1700000000000.jpg'')
       = Some (path_join (path_join (dirname example_world) (js ''uploads''))
                 (image_file_name (js ''Field_01'') (Date_now example_world)))"
    using a t1 [THEN conjunct2, THEN conjunct2, THEN conjunct2, THEN conjunct2] by simp
  have r3: "\<exists>n buf. sanitizeCollectionName (field_id example_body) = Some n
         \<and> files (snd (handler ?w empty_state example_body)) =
             files empty_state @
               [(path_join (path_join (dirname ?w) (js ''uploads''))
                   (image_file_name n (Date_now ?w)), buf)]"
    using ne t2 [THEN conjunct2, THEN conjunct2, THEN conjunct1] by (rule_tac disjE) auto
  show ?thesis
    using c a e g r1 r2 r3 by (simp only: simp_thms)
qed

text \<open>
  C10 as stated, that the generated file name holds no dot, fails: the suffix \<open>.jpg\<close>
  has one.
\<close>

theorem file_name_dot_counterexample:
  "sanitizeCollectionName (field_id example_body) = Some (js ''Field_01'')
   \<and> files (snd (handler example_world empty_state example_body))
       = [(path_join (path_join (js ''/srv/app'') (js ''uploads''))
             (image_file_name (js ''Field_01'') 1700000000000), [65])]
   \<and> image_file_name (js ''Field_01'') 1700000000000 = js ''Field_01_1700000000000.jpg''
   \<and> of_char CHR ''.'' \<in> set (image_file_name (js ''Field_01'') 1700000000000)
   \<and> \<not> allowed_char (of_char CHR ''.'')"
  by code_simp

end
